theory Spec2Isabelle
  imports Complex_Main "HOL-Library.Multiset" "HOL-Library.Product_Lexorder"
begin

section \<open>Data\<close>

subsection \<open>Result tables\<close>

text \<open>
  A cell of a pandas column. \<open>NaN\<close> is the missing marker \<^verbatim>\<open>np.nan\<close>,
  \<open>NegInf\<close> and \<open>PosInf\<close> are \<^verbatim>\<open>-np.inf\<close> and \<^verbatim>\<open>np.inf\<close>, and \<open>Val\<close> holds any
  other value. A float column is a column of \<open>rat cell\<close>: every finite float is a
  rational number, and floats are ordered and compared as the rationals are.
\<close>

datatype 'a cell = NaN | NegInf | PosInf | Val 'a

text \<open>
  One row of the table that \<^verbatim>\<open>train_model\<close> builds, with the seven columns of its
  \<^verbatim>\<open>pd.DataFrame({...})\<close> in their order. \<open>'d\<close> is the type of the window's index
  values, \<open>'m\<close> the type of a reference to a model object and \<open>'r\<close> the type of a
  prediction.
\<close>

record ('d, 'm, 'r) fit_record =
  start_date :: "'d cell"
  end_date :: "'d cell"
  model :: "'m cell"
  model_result :: "'r cell"
  time :: "rat cell"
  "method" :: "string cell"
  error :: "rat cell"

text \<open>A data frame of such rows: each row with its index label, in row order.\<close>

type_synonym ('d, 'm, 'r) table = "(nat \<times> ('d, 'm, 'r) fit_record) list"

section \<open>\<^verbatim>\<open>reduce_results_df\<close>\<close>

subsection \<open>The pandas operations of the chain\<close>

text \<open>\<^verbatim>\<open>df.replace([-np.inf, np.inf], np.nan)\<close>: on every cell of every column.\<close>

fun replace_cell :: "'a cell \<Rightarrow> 'a cell" where
  "replace_cell NegInf = NaN"
| "replace_cell PosInf = NaN"
| "replace_cell c = c"

definition replace_row :: "('d, 'm, 'r) fit_record \<Rightarrow> ('d, 'm, 'r) fit_record" where
  "replace_row r =
     \<lparr>start_date = replace_cell (start_date r),
      end_date = replace_cell (end_date r),
      model = replace_cell (model r),
      model_result = replace_cell (model_result r),
      time = replace_cell (time r),
      method = replace_cell (method r),
      error = replace_cell (error r)\<rparr>"

definition replace_inf :: "('d, 'm, 'r) table \<Rightarrow> ('d, 'm, 'r) table" where
  "replace_inf df = map (\<lambda>(i, r). (i, replace_row r)) df"

text \<open>\<^verbatim>\<open>.dropna()\<close>: drops every row that has a missing cell in any column.\<close>

definition has_na :: "('d, 'm, 'r) fit_record \<Rightarrow> bool" where
  "has_na r \<longleftrightarrow>
     start_date r = NaN \<or> end_date r = NaN \<or> model r = NaN \<or> model_result r = NaN \<or>
     time r = NaN \<or> method r = NaN \<or> error r = NaN"

definition dropna :: "('d, 'm, 'r) table \<Rightarrow> ('d, 'm, 'r) table" where
  "dropna df = filter (\<lambda>(i, r). \<not> has_na r) df"

text \<open>
  \<^verbatim>\<open>.round({'error': decimals})\<close>: numpy rounds the finite values of the error
  column in its float arithmetic, where the result depends on how the scaled value is
  represented and may overflow to an infinity. That operation is not defined here: it
  is a parameter \<open>rnd\<close> of the chain, any function from the number of decimals and a
  finite value to a cell. Missing and infinite cells stay as they are.
\<close>

type_synonym rounding = "int \<Rightarrow> rat \<Rightarrow> rat cell"

fun round_cell :: "rounding \<Rightarrow> int \<Rightarrow> rat cell \<Rightarrow> rat cell" where
  "round_cell rnd decimals (Val x) = rnd decimals x"
| "round_cell rnd decimals c = c"

definition round_error :: "rounding \<Rightarrow> int \<Rightarrow> ('d, 'm, 'r) table \<Rightarrow> ('d, 'm, 'r) table" where
  "round_error rnd decimals df =
     map (\<lambda>(i, r). (i, r\<lparr>error := round_cell rnd decimals (error r)\<rparr>)) df"

text \<open>
  \<^verbatim>\<open>.sort_values(col)\<close> sorts the rows ascending by a float column, missing values
  last. \<open>cell_key\<close> is that order on the cells. pandas sorts with numpy's quicksort,
  which does not promise to keep the order of rows with equal keys, so the sort itself
  is a parameter: any function \<open>srt\<close> that returns a sorted rearrangement of the rows
  (\<open>sorting srt\<close>). \<open>sort_key\<close> of the list library is one such function.
\<close>

fun cell_key :: "rat cell \<Rightarrow> nat \<times> rat" where
  "cell_key NegInf = (0, 0)"
| "cell_key (Val x) = (1, x)"
| "cell_key PosInf = (2, 0)"
| "cell_key NaN = (3, 0)"

type_synonym 'a sorter = "('a \<Rightarrow> nat \<times> rat) \<Rightarrow> 'a list \<Rightarrow> 'a list"

definition sorting :: "'a sorter \<Rightarrow> bool" where
  "sorting srt \<longleftrightarrow> (\<forall>k xs. mset (srt k xs) = mset xs \<and> sorted (map k (srt k xs)))"

text \<open>
  \<^verbatim>\<open>.drop_duplicates(subset=['error'], keep='first')\<close>: a row is dropped when an
  earlier row has the same value in the error column; \<open>seen\<close> holds the values met so
  far.
\<close>

fun drop_dups :: "('a \<Rightarrow> 'k) \<Rightarrow> 'k list \<Rightarrow> 'a list \<Rightarrow> 'a list" where
  "drop_dups k seen [] = []"
| "drop_dups k seen (x # xs) =
     (if k x \<in> set seen then drop_dups k seen xs else x # drop_dups k (k x # seen) xs)"

definition drop_duplicates :: "('a \<Rightarrow> 'k) \<Rightarrow> 'a list \<Rightarrow> 'a list" where
  "drop_duplicates k xs = drop_dups k [] xs"

text \<open>\<^verbatim>\<open>.reset_index(drop=True)\<close>: the rows keep their order and are labelled from 0.\<close>

definition reset_index :: "(nat \<times> 'a) list \<Rightarrow> (nat \<times> 'a) list" where
  "reset_index df = zip [0 ..< length df] (map snd df)"

subsection \<open>The chain\<close>

text \<open>The rows that reach the sorting steps: cleaned, with the error column rounded.\<close>

definition cleaned :: "rounding \<Rightarrow> int \<Rightarrow> ('d, 'm, 'r) table \<Rightarrow> ('d, 'm, 'r) table" where
  "cleaned rnd decimals df = round_error rnd decimals (dropna (replace_inf df))"

definition reduce_results_df ::
  "(nat \<times> ('d, 'm, 'r) fit_record) sorter \<Rightarrow> rounding \<Rightarrow> ('d, 'm, 'r) table \<Rightarrow> int \<Rightarrow>
   ('d, 'm, 'r) table"
where
  "reduce_results_df srt rnd df decimals =
     reset_index
       (srt (\<lambda>(i, r). cell_key (error r))
         (drop_duplicates (\<lambda>(i, r). error r)
           (srt (\<lambda>(i, r). cell_key (time r))
             (round_error rnd decimals (dropna (replace_inf df))))))"

text \<open>A row none of whose cells is missing or infinite.\<close>

definition all_values :: "('d, 'm, 'r) fit_record \<Rightarrow> bool" where
  "all_values r \<longleftrightarrow>
     (\<exists>a. start_date r = Val a) \<and> (\<exists>a. end_date r = Val a) \<and> (\<exists>a. model r = Val a) \<and>
     (\<exists>a. model_result r = Val a) \<and> (\<exists>a. time r = Val a) \<and> (\<exists>a. method r = Val a) \<and>
     (\<exists>a. error r = Val a)"

text \<open>A row with an infinite cell in some column.\<close>

definition has_inf :: "('d, 'm, 'r) fit_record \<Rightarrow> bool" where
  "has_inf r \<longleftrightarrow>
     start_date r \<in> {NegInf, PosInf} \<or> end_date r \<in> {NegInf, PosInf} \<or>
     model r \<in> {NegInf, PosInf} \<or> model_result r \<in> {NegInf, PosInf} \<or>
     time r \<in> {NegInf, PosInf} \<or> method r \<in> {NegInf, PosInf} \<or>
     error r \<in> {NegInf, PosInf}"

section \<open>Training\<close>

subsection \<open>Exceptions\<close>

text \<open>
  The exceptions of the Python code, as values. \<open>ValueError\<close> stands for every
  instance of \<^verbatim>\<open>ValueError\<close> (what \<^verbatim>\<open>except ValueError\<close> catches), \<open>IndexError\<close>
  and \<open>KeyError\<close> are what pandas raises for a position out of bounds and for a missing
  label, and \<open>OtherError\<close> is any other exception.
\<close>

datatype exn = ValueError | IndexError | KeyError | OtherError nat

subsection \<open>Training windows\<close>

text \<open>
  The feature window \<^verbatim>\<open>X_train\<close>: a data frame with its column names and its rows,
  each row with its index value and the value it has in each column (only the names in
  \<open>columns\<close> belong to the frame). The target \<^verbatim>\<open>y_train\<close> is a series: index values
  with their values.
\<close>

record ('d, 'v) frame =
  columns :: "string list"
  rows :: "('d \<times> (string \<Rightarrow> 'v)) list"

type_synonym ('d, 'v) series = "('d \<times> 'v) list"

text \<open>\<^verbatim>\<open>X_train.index\<close> and \<^verbatim>\<open>y_train.values\<close>.\<close>

definition index :: "('d, 'v) frame \<Rightarrow> 'd list" where
  "index X = map fst (rows X)"

definition values_of :: "('d, 'v) series \<Rightarrow> 'v list" where
  "values_of y = map snd y"




text \<open>
  \<^verbatim>\<open>X_train.iloc[0][key]\<close>: the first row, then its value under the column name
  \<open>key\<close>. No first row is an \<^verbatim>\<open>IndexError\<close>, no such column a \<^verbatim>\<open>KeyError\<close>.
\<close>

definition first_row_get :: "('d, 'v) frame \<Rightarrow> string \<Rightarrow> exn + 'v" where
  "first_row_get X key =
     (case rows X of
        [] \<Rightarrow> Inl IndexError
      | (d, r) # _ \<Rightarrow> if key \<in> set (columns X) then Inr (r key) else Inl KeyError)"

text \<open>
  \<^verbatim>\<open>X_train.to_dict(orient='list')\<close>: each column name with the list of the column's
  values. It is the first argument of the call of \<^verbatim>\<open>fit\<close>, and evaluated inside the
  \<^verbatim>\<open>try\<close>, so its result is typed as one that may raise.
\<close>

definition to_dict :: "('d, 'v) frame \<Rightarrow> exn + (string \<times> 'v list) list" where
  "to_dict X = Inr (map (\<lambda>c. (c, map (\<lambda>(d, r). r c) (rows X))) (columns X))"

subsection \<open>Model objects\<close>

text \<open>
  Models are mutable objects, and \<^verbatim>\<open>train_model\<close> copies one before it fits it, so
  they live in a store. A model object is its \<^verbatim>\<open>params\<close> mapping: parameter names, in
  the mapping's order, each with the address of its parameter object; a parameter object
  has a content of type \<open>'p\<close>. \<open>next_model\<close> and \<open>next_param\<close> are the first addresses
  not yet allocated. The clock that \<^verbatim>\<open>timer()\<close> reads is part of the same world.
\<close>

type_synonym addr = nat

record 'p world =
  model_objs :: "addr \<Rightarrow> (string \<times> addr) list"
  param_objs :: "addr \<Rightarrow> 'p"
  next_model :: addr
  next_param :: addr
  now :: rat

text \<open>
  \<^verbatim>\<open>copy.deepcopy(base_model)\<close>: a new parameter object for every parameter object
  of the mapping, with the content of the old one, and a new model object that maps the
  names to the new parameter objects. \<open>memo\<close> holds the parameter objects copied so
  far with their copies: an object that two names are bound to is copied once.
\<close>

fun copy_params ::
  "'p world \<Rightarrow> (addr \<times> addr) list \<Rightarrow> (string \<times> addr) list \<Rightarrow> (string \<times> addr) list \<times> 'p world"
where
  "copy_params w memo [] = ([], w)"
| "copy_params w memo ((name, p) # ps) =
     (case map_of memo p of
        Some q \<Rightarrow>
          (let (qs, w') = copy_params w memo ps
           in ((name, q) # qs, w'))
      | None \<Rightarrow>
          (let q = next_param w;
               w' = w\<lparr>param_objs := (param_objs w)(q := param_objs w p), next_param := Suc q\<rparr>;
               (qs, w'') = copy_params w' ((p, q) # memo) ps
           in ((name, q) # qs, w'')))"

definition deepcopy :: "'p world \<Rightarrow> addr \<Rightarrow> addr \<times> 'p world" where
  "deepcopy w a =
     (let (qs, w') = copy_params w [] (model_objs w a);
          b = next_model w'
      in (b, w'\<lparr>model_objs := (model_objs w')(b := qs), next_model := Suc b\<rparr>))"

text \<open>What \<^verbatim>\<open>model.params\<close> shows: the names with the contents of their parameters.\<close>

definition params_view :: "'p world \<Rightarrow> addr \<Rightarrow> (string \<times> 'p) list" where
  "params_view w a = map (\<lambda>(name, p). (name, param_objs w p)) (model_objs w a)"

text \<open>
  Two ways of mutating the parameters of a model: giving a parameter object a new
  content (\<^verbatim>\<open>model.params[name].value = v\<close>), and binding a name of the mapping to
  another parameter object (\<^verbatim>\<open>model.params[name] = p\<close>), where a name that the mapping
  has keeps its place and a new name comes last.
\<close>

definition set_param_value :: "'p world \<Rightarrow> addr \<Rightarrow> string \<Rightarrow> 'p \<Rightarrow> 'p world" where
  "set_param_value w a name v =
     (case map_of (model_objs w a) name of
        None \<Rightarrow> w
      | Some p \<Rightarrow> w\<lparr>param_objs := (param_objs w)(p := v)\<rparr>)"

definition set_param_object :: "'p world \<Rightarrow> addr \<Rightarrow> string \<Rightarrow> addr \<Rightarrow> 'p world" where
  "set_param_object w a name p =
     w\<lparr>model_objs := (model_objs w)
          (a := if name \<in> fst ` set (model_objs w a)
                then map (\<lambda>(n, q). if n = name then (n, p) else (n, q)) (model_objs w a)
                else model_objs w a @ [(name, p)])\<rparr>"

subsection \<open>The collaborators\<close>

text \<open>
  The model family is outside the code: \<^verbatim>\<open>model.fit(X, y, method, ic_params)\<close>
  returns a fitted model or raises, \<^verbatim>\<open>model.predict(X)\<close> returns a prediction or
  raises, both may change the world, and \<^verbatim>\<open>model_result.Z\<close> is the predicted series.
  An error metric maps the actual and the predicted values to a score (a float), or
  raises.
\<close>

record ('p, 'd, 'v, 'r) collaborators =
  fit :: "'p world \<Rightarrow> addr \<Rightarrow> (string \<times> 'v list) list \<Rightarrow> 'v list \<Rightarrow> string \<Rightarrow>
          (string \<rightharpoonup> 'v) \<Rightarrow> (exn + addr) \<times> 'p world"
  predict :: "'p world \<Rightarrow> addr \<Rightarrow> ('d, 'v) frame \<Rightarrow> (exn + 'r) \<times> 'p world"
  Z :: "'r \<Rightarrow> 'v list"

type_synonym 'v metric = "'v list \<Rightarrow> 'v list \<Rightarrow> exn + rat cell"

subsection \<open>\<^verbatim>\<open>get_ic_params\<close>\<close>

text \<open>
  The loop over the keys of \<^verbatim>\<open>model.params\<close>, with the dictionary built so far. For
  a string \<open>key\<close>, \<^verbatim>\<open>'0' in key\<close> holds when the character occurs in it.
\<close>

fun ic_loop :: "('d, 'v) frame \<Rightarrow> string list \<Rightarrow> (string \<rightharpoonup> 'v) \<Rightarrow> exn + (string \<rightharpoonup> 'v)" where
  "ic_loop X_train [] ic_params = Inr ic_params"
| "ic_loop X_train (key # keys) ic_params =
     (if CHR ''0'' \<in> set key
      then (case first_row_get X_train key of
              Inl e \<Rightarrow> Inl e
            | Inr v \<Rightarrow> ic_loop X_train keys (ic_params(key \<mapsto> v)))
      else ic_loop X_train keys ic_params)"

definition get_ic_params :: "'p world \<Rightarrow> addr \<Rightarrow> ('d, 'v) frame \<Rightarrow> exn + (string \<rightharpoonup> 'v)" where
  "get_ic_params w mdl X_train = ic_loop X_train (map fst (model_objs w mdl)) Map.empty"

subsection \<open>\<^verbatim>\<open>train_model\<close>\<close>

text \<open>
  The call inside the \<^verbatim>\<open>try\<close>: Python evaluates the arguments from left to right,
  the first exception ends the evaluation, and then \<^verbatim>\<open>fit\<close> is called.
\<close>

definition call_fit ::
  "('p, 'd, 'v, 'r) collaborators \<Rightarrow> 'p world \<Rightarrow> addr \<Rightarrow> exn + (string \<times> 'v list) list \<Rightarrow>
   'v list \<Rightarrow> string \<Rightarrow> exn + (string \<rightharpoonup> 'v) \<Rightarrow> (exn + addr) \<times> 'p world"
where
  "call_fit env w mdl X y method_name ic_params =
     (case X of
        Inl e \<Rightarrow> (Inl e, w)
      | Inr xd \<Rightarrow>
          (case ic_params of
             Inl e \<Rightarrow> (Inl e, w)
           | Inr ic \<Rightarrow> fit env w mdl xd y method_name ic))"

text \<open>
  The one-row frame of either \<^verbatim>\<open>return\<close>. \<^verbatim>\<open>X_train.index[0]\<close> is evaluated first
  and raises \<^verbatim>\<open>IndexError\<close> on an empty window; the error score is evaluated last.
\<close>

definition result_frame ::
  "('d, 'v) frame \<Rightarrow> addr cell \<Rightarrow> 'r cell \<Rightarrow> rat \<Rightarrow> string \<Rightarrow> exn + rat cell \<Rightarrow>
   exn + ('d, addr, 'r) table"
where
  "result_frame X_train m res elapsed method_name err =
     (case index X_train of
        [] \<Rightarrow> Inl IndexError
      | d # ds \<Rightarrow>
          (case err of
             Inl e \<Rightarrow> Inl e
           | Inr score \<Rightarrow>
               Inr [(0, \<lparr>start_date = Val d, end_date = Val (last (d # ds)), model = m,
                         model_result = res, time = Val elapsed, method = Val method_name,
                         error = score\<rparr>)]))"

text \<open>
  The \<^verbatim>\<open>try\<close> statement and what follows it, given the time read at the start, the
  copy of the model and the outcomes of evaluating the two arguments
  \<^verbatim>\<open>X_train.to_dict(orient='list')\<close> and \<^verbatim>\<open>get_ic_params(model, X_train)\<close>, which
  stand inside the \<^verbatim>\<open>try\<close>. (The Python variables \<^verbatim>\<open>model\<close> and \<^verbatim>\<open>method\<close> are
  written \<open>mdl\<close> and \<open>method_name\<close>: \<open>model\<close> and \<open>method\<close> name columns.)
\<close>

definition try_fit ::
  "('p, 'd, 'v, 'r) collaborators \<Rightarrow> ('d, 'v) frame \<Rightarrow> ('d, 'v) series \<Rightarrow> 'v metric \<Rightarrow>
   string \<Rightarrow> rat \<Rightarrow> 'p world \<Rightarrow> addr \<Rightarrow> exn + (string \<times> 'v list) list \<Rightarrow>
   exn + (string \<rightharpoonup> 'v) \<Rightarrow> (exn + ('d, addr, 'r) table) \<times> 'p world"
where
  "try_fit env X_train y_train error_metric method_name start w1 mdl X ic_params =
     (case call_fit env w1 mdl X (values_of y_train) method_name ic_params of
        (Inl e, w2) \<Rightarrow>
          if e = ValueError
          then (result_frame X_train NaN NaN (now w2 - start) method_name (Inr NaN), w2)
          else (Inl e, w2)
      | (Inr fitted, w2) \<Rightarrow>
          (case predict env w2 fitted X_train of
             (Inl e, w3) \<Rightarrow> (Inl e, w3)
           | (Inr prediction, w3) \<Rightarrow>
               (result_frame X_train (Val fitted) (Val prediction) (now w3 - start)
                  method_name (error_metric (values_of y_train) (Z env prediction)), w3)))"

definition train_model ::
  "('p, 'd, 'v, 'r) collaborators \<Rightarrow> addr \<Rightarrow> ('d, 'v) frame \<Rightarrow> ('d, 'v) series \<Rightarrow> 'v metric \<Rightarrow>
   string \<Rightarrow> 'p world \<Rightarrow> (exn + ('d, addr, 'r) table) \<times> 'p world"
where
  "train_model env base_model X_train y_train error_metric method_name w0 =
     (let start = now w0;
          (mdl, w1) = deepcopy w0 base_model
      in try_fit env X_train y_train error_metric method_name start w1 mdl
           (to_dict X_train) (get_ic_params w1 mdl X_train))"

subsection \<open>\<^verbatim>\<open>train_models\<close>\<close>








subsection \<open>What is assumed of the collaborators\<close>

text \<open>
  \<^verbatim>\<open>timer\<close> is a monotonic clock: the time does not run backwards while a model is
  fitted.
\<close>

definition clock_monotone :: "('p, 'd, 'v, 'r) collaborators \<Rightarrow> bool" where
  "clock_monotone env \<longleftrightarrow>
     (\<forall>w a xd yv m ic. now w \<le> now (snd (fit env w a xd yv m ic)))"

text \<open>
  \<^verbatim>\<open>fit\<close> and \<^verbatim>\<open>predict\<close> are methods of a model: they may change the model they are
  called on and its parameters, and create objects, and nothing else. \<open>owned w a\<close> are
  the parameter objects of the model \<open>a\<close>; \<open>confined w a w'\<close> says that the step from
  \<open>w\<close> to \<open>w'\<close> leaves every other model and every other parameter object of \<open>w\<close> as
  it was; \<open>own_or_new w a w' b\<close> says that the model \<open>b\<close> of \<open>w'\<close> is \<open>a\<close> or a new
  model, with parameter objects that were those of \<open>a\<close> or are new.
\<close>

definition owned :: "'p world \<Rightarrow> addr \<Rightarrow> addr set" where
  "owned w a = snd ` set (model_objs w a)"

definition confined :: "'p world \<Rightarrow> addr \<Rightarrow> 'p world \<Rightarrow> bool" where
  "confined w a w' \<longleftrightarrow>
     next_model w \<le> next_model w' \<and> next_param w \<le> next_param w' \<and>
     (\<forall>b. b < next_model w \<and> b \<noteq> a \<longrightarrow> model_objs w' b = model_objs w b) \<and>
     (\<forall>p. p < next_param w \<and> p \<notin> owned w a \<longrightarrow> param_objs w' p = param_objs w p)"

definition own_or_new :: "'p world \<Rightarrow> addr \<Rightarrow> 'p world \<Rightarrow> addr \<Rightarrow> bool" where
  "own_or_new w a w' b \<longleftrightarrow>
     (b = a \<or> next_model w \<le> b) \<and>
     (\<forall>p \<in> owned w' b. p \<in> owned w a \<or> next_param w \<le> p)"

definition isolated :: "('p, 'd, 'v, 'r) collaborators \<Rightarrow> bool" where
  "isolated env \<longleftrightarrow>
     (\<forall>w a xd yv m ic.
        confined w a (snd (fit env w a xd yv m ic)) \<and>
        (\<forall>b. fst (fit env w a xd yv m ic) = Inr b \<longrightarrow>
             own_or_new w a (snd (fit env w a xd yv m ic)) b)) \<and>
     (\<forall>w a X.
        confined w a (snd (predict env w a X)) \<and>
        own_or_new w a (snd (predict env w a X)) a)"

text \<open>
  Two invariants of a run of \<^verbatim>\<open>train_model\<close> that starts in \<open>w0\<close>: the base model
  and its parameter objects are in \<open>w\<close> what they were in \<open>w0\<close>, and the model \<open>a\<close> and
  its parameter objects were allocated after \<open>w0\<close>.
\<close>

definition kept :: "'p world \<Rightarrow> addr \<Rightarrow> 'p world \<Rightarrow> bool" where
  "kept w0 base w \<longleftrightarrow>
     next_model w0 \<le> next_model w \<and> next_param w0 \<le> next_param w \<and>
     model_objs w base = model_objs w0 base \<and>
     (\<forall>p \<in> owned w0 base. param_objs w p = param_objs w0 p)"

definition apart :: "'p world \<Rightarrow> 'p world \<Rightarrow> addr \<Rightarrow> bool" where
  "apart w0 w a \<longleftrightarrow> next_model w0 \<le> a \<and> (\<forall>p \<in> owned w a. next_param w0 \<le> p)"

section \<open>Example inputs\<close>

text \<open>
  A rounding function for the examples: the exact value rounded to the nearest multiple
  of \<open>10\<close> to the power \<open>- decimals\<close>, a tie going to the even multiple.
\<close>

definition half_even :: "rat \<Rightarrow> int" where
  "half_even x =
     (let f = \<lfloor>x\<rfloor>; r = x - of_int f
      in if r < 1 / 2 then f else if 1 / 2 < r then f + 1 else if even f then f else f + 1)"

definition decimal_round :: rounding where
  "decimal_round decimals x =
     Val (if 0 \<le> decimals
          then of_int (half_even (x * 10 ^ nat decimals)) / 10 ^ nat decimals
          else of_int (half_even (x / 10 ^ nat (- decimals))) * 10 ^ nat (- decimals))"

text \<open>A rounding function that overflows: a value above \<open>1 / 10\<close> becomes \<open>+inf\<close>.\<close>

definition overflow_round :: rounding where
  "overflow_round decimals x = (if 1 / 10 < x then PosInf else decimal_round decimals x)"

text \<open>
  A result table with two rows whose errors \<open>decimal_round\<close> makes equal at 5 decimals
  (models 1 and 2, model 2 the faster), a row with another error, a row with an infinite
  time and a finite error, a row with an infinite error, and the row of a failed fit.
\<close>

definition ex_row :: "addr \<Rightarrow> rat cell \<Rightarrow> rat cell \<Rightarrow> (nat, addr, nat) fit_record" where
  "ex_row m t e =
     \<lparr>start_date = Val 0, end_date = Val 9, model = Val m, model_result = Val m,
      time = t, method = Val ''nelder'', error = e\<rparr>"

definition ex_failed :: "(nat, addr, nat) fit_record" where
  "ex_failed =
     \<lparr>start_date = Val 0, end_date = Val 9, model = NaN, model_result = NaN,
      time = Val 1, method = Val ''nelder'', error = NaN\<rparr>"

definition ex_table :: "(nat, addr, nat) table" where
  "ex_table =
     [(0, ex_row 1 (Val 3) (Val (123456 / 1000000))),
      (1, ex_row 2 (Val 2) (Val (123455 / 1000000))),
      (2, ex_row 3 (Val 5) (Val (1 / 100))),
      (3, ex_row 4 PosInf (Val (1 / 1000))),
      (4, ex_row 5 (Val 1) NegInf),
      (5, ex_failed)]"

text \<open>
  A world with two models: at address 0 one whose parameters \<open>A0\<close> and \<open>B\<close> have
  no value yet, at address 1 one with the parameter \<open>K\<close>; a window of three rows with
  the columns \<open>A0\<close> and \<open>Ph\<close>; its target series; collaborators whose \<^verbatim>\<open>fit\<close> raises \<^verbatim>\<open>ValueError\<close> for the method \<open>diverge\<close>,
  another exception for the method \<open>crash\<close>, and otherwise gives every parameter of the
  model it is called on the initial condition of \<open>A0\<close>, and whose \<^verbatim>\<open>predict\<close> returns
  the column \<open>Ph\<close>; and the sum of the absolute errors as the metric.
\<close>

definition ex_world :: "rat option world" where
  "ex_world =
     \<lparr>model_objs = (\<lambda>a. [])(0 := [(''A0'', 0), (''B'', 1)], 1 := [(''K'', 2)]),
      param_objs = (\<lambda>p. None),
      next_model = 2, next_param = 3, now = 100\<rparr>"

definition ex_X :: "(nat, rat) frame" where
  "ex_X =
     \<lparr>columns = [''A0'', ''Ph''],
      rows = [(10, (\<lambda>c. 0)(''A0'' := 25 / 2, ''Ph'' := 1)),
              (11, (\<lambda>c. 0)(''A0'' := 13, ''Ph'' := 2)),
              (12, (\<lambda>c. 0)(''A0'' := 14, ''Ph'' := 3))]\<rparr>"

definition ex_y :: "(nat, rat) series" where
  "ex_y = [(10, 1), (11, 2), (12, 5)]"

definition ex_env :: "(rat option, nat, rat, rat list) collaborators" where
  "ex_env =
     \<lparr>fit = (\<lambda>w a xd yv m ic.
         if m = ''diverge'' then (Inl ValueError, w\<lparr>now := now w + 1\<rparr>)
         else if m = ''crash'' then (Inl (OtherError 0), w\<lparr>now := now w + 1\<rparr>)
         else (Inr a,
               w\<lparr>param_objs := (\<lambda>p. if p \<in> snd ` set (model_objs w a) then ic ''A0''
                                     else param_objs w p),
                 now := now w + 2\<rparr>)),
      predict = (\<lambda>w a X. (Inr (map (\<lambda>(d, r). r ''Ph'') (rows X)), w\<lparr>now := now w + 1\<rparr>)),
      Z = (\<lambda>r. r)\<rparr>"

definition ex_metric :: "rat metric" where
  "ex_metric actual predicted =
     Inr (Val (sum_list (map (\<lambda>(a, p). \<bar>a - p\<bar>) (zip actual predicted))))"




section \<open>Properties of \<^verbatim>\<open>reduce_results_df\<close>\<close>

subsection \<open>Sorting, dropping duplicates, renumbering\<close>

lemma sorting_sort_key: "sorting sort_key"
  by (simp add: sorting_def)

lemma sorting_set: "sorting srt \<Longrightarrow> set (srt k xs) = set xs"
  unfolding sorting_def by (metis set_mset_mset)

lemma sorting_sorted: "sorting srt \<Longrightarrow> sorted (map k (srt k xs))"
  unfolding sorting_def by blast

lemma sorting_length: "sorting srt \<Longrightarrow> length (srt k xs) = length xs"
  unfolding sorting_def by (metis size_mset)

lemma sorting_distinct_map:
  assumes "sorting srt" "distinct (map f xs)"
  shows "distinct (map f (srt k xs))"
proof -
  have "mset (map f (srt k xs)) = mset (map f xs)"
    using assms(1) unfolding sorting_def by (metis mset_map)
  then show ?thesis using assms(2) by (metis mset_eq_imp_distinct_iff)
qed

lemma drop_dups_subset: "set (drop_dups k seen xs) \<subseteq> set xs"
  by (induction xs arbitrary: seen) auto

lemma drop_dups_keys: "k ` set (drop_dups k seen xs) = k ` set xs - set seen"
  by (induction xs arbitrary: seen) auto

lemma drop_dups_not_seen: "x \<in> set (drop_dups k seen xs) \<Longrightarrow> k x \<notin> set seen"
  using drop_dups_keys [of k seen xs] by blast

lemma drop_dups_distinct: "distinct (map k (drop_dups k seen xs))"
proof (induction xs arbitrary: seen)
  case Nil
  then show ?case by simp
next
  case (Cons a xs)
  have "k a \<notin> k ` set (drop_dups k (k a # seen) xs)"
    by (simp add: drop_dups_keys)
  with Cons show ?case by simp
qed

lemma drop_dups_first:
  assumes "sorted (map t xs)" "x \<in> set (drop_dups k seen xs)" "y \<in> set xs" "k y = k x"
  shows "t x \<le> t y"
  using assms
proof (induction xs arbitrary: seen)
  case Nil
  then show ?case by simp
next
  case (Cons a xs)
  have srt: "sorted (map t xs)" and le: "\<And>z. z \<in> set xs \<Longrightarrow> t a \<le> t z"
    using Cons.prems(1) by auto
  show ?case
  proof (cases "k a \<in> set seen")
    case True
    then have x: "x \<in> set (drop_dups k seen xs)" using Cons.prems(2) by simp
    then have "k x \<notin> set seen" by (rule drop_dups_not_seen)
    with True Cons.prems(4) have "y \<noteq> a" by auto
    with Cons.prems(3) have "y \<in> set xs" by simp
    from Cons.IH [OF srt x this Cons.prems(4)] show ?thesis .
  next
    case False
    then have "x = a \<or> x \<in> set (drop_dups k (k a # seen) xs)"
      using Cons.prems(2) by simp
    then show ?thesis
    proof
      assume "x = a"
      with Cons.prems(3) le show ?thesis by auto
    next
      assume x: "x \<in> set (drop_dups k (k a # seen) xs)"
      then have "k x \<notin> set (k a # seen)" by (rule drop_dups_not_seen)
      with Cons.prems(4) have "y \<noteq> a" by auto
      with Cons.prems(3) have "y \<in> set xs" by simp
      from Cons.IH [OF srt x this Cons.prems(4)] show ?thesis .
    qed
  qed
qed

lemma reset_index_fst: "map fst (reset_index df) = [0 ..< length df]"
  by (simp add: reset_index_def)

lemma reset_index_snd: "map snd (reset_index df) = map snd df"
  by (simp add: reset_index_def)

lemma length_reset_index: "length (reset_index df) = length df"
  by (simp add: reset_index_def)

lemma replace_cell_Val: "replace_cell c \<noteq> NaN \<Longrightarrow> \<exists>x. c = Val x"
  by (cases c) auto

lemma replace_cell_idem: "replace_cell c \<noteq> NaN \<Longrightarrow> replace_cell c = c"
  by (cases c) auto

lemma not_has_na_replace_row:
  assumes "\<not> has_na (replace_row r)"
  shows "all_values r \<and> replace_row r = r"
proof -
  from assms have n: "replace_cell (start_date r) \<noteq> NaN" "replace_cell (end_date r) \<noteq> NaN"
    "replace_cell (model r) \<noteq> NaN" "replace_cell (model_result r) \<noteq> NaN"
    "replace_cell (time r) \<noteq> NaN" "replace_cell (method r) \<noteq> NaN"
    "replace_cell (error r) \<noteq> NaN"
    by (simp_all add: has_na_def replace_row_def)
  have "all_values r"
    unfolding all_values_def using n by (simp add: replace_cell_Val)
  moreover have "replace_row r = r"
    unfolding replace_row_def using n by (simp add: replace_cell_idem)
  ultimately show ?thesis by simp
qed

lemma all_values_replace_row: "all_values r \<Longrightarrow> \<not> has_na (replace_row r)"
  by (auto simp: all_values_def has_na_def replace_row_def)

lemma dropna_replace_inf:
  "dropna (replace_inf df) = filter (\<lambda>(i, r). all_values r) df"
proof (induction df)
  case Nil
  then show ?case by (simp add: dropna_def replace_inf_def)
next
  case (Cons p df)
  obtain i r where p: "p = (i, r)" by (cases p)
  show ?case
  proof (cases "all_values r")
    case True
    then have "\<not> has_na (replace_row r)" by (rule all_values_replace_row)
    moreover from this have "replace_row r = r" using not_has_na_replace_row by blast
    ultimately show ?thesis
      using Cons True p by (simp add: dropna_def replace_inf_def)
  next
    case False
    then have "has_na (replace_row r)" using not_has_na_replace_row by blast
    then show ?thesis
      using Cons False p by (simp add: dropna_def replace_inf_def)
  qed
qed

lemma cleaned_source:
  assumes "(i, s) \<in> set (cleaned rnd decimals df)"
  shows "\<exists>r. (i, r) \<in> set df \<and> all_values r \<and> s = r\<lparr>error := round_cell rnd decimals (error r)\<rparr>"
  using assms unfolding cleaned_def dropna_replace_inf round_error_def by auto

lemma cleaned_time:
  assumes "(i, s) \<in> set (cleaned rnd decimals df)"
  shows "\<exists>a. time s = Val a"
proof -
  from cleaned_source [OF assms] obtain r where
    r: "all_values r" "s = r\<lparr>error := round_cell rnd decimals (error r)\<rparr>" by blast
  then show ?thesis by (auto simp: all_values_def)
qed

lemma cell_key_inj: "inj cell_key"
proof (rule injI)
  fix a b :: "rat cell"
  assume "cell_key a = cell_key b"
  then show "a = b" by (cases a; cases b) simp_all
qed

lemma all_Val_map: "(\<forall>c \<in> set cs. \<exists>x. c = Val x) \<Longrightarrow> \<exists>xs. cs = map Val xs"
proof (induction cs)
  case Nil
  then show ?case by simp
next
  case (Cons c cs)
  then obtain x xs where "c = Val x" "cs = map Val xs" by auto
  then have "c # cs = map Val (x # xs)" by simp
  then show ?case ..
qed

lemma sorted_cell_key_Val: "sorted (map cell_key (map Val es)) \<Longrightarrow> sorted es"
  by (induction es) auto

lemma set_reset_index: "snd ` set (reset_index df) = snd ` set df"
  using reset_index_snd [of df] by (metis set_map)

lemma reduce_set:
  assumes "sorting srt"
  shows "snd ` set (reduce_results_df srt rnd df decimals) =
         snd ` set (drop_duplicates (\<lambda>(i, r). error r)
                      (srt (\<lambda>(i, r). cell_key (time r)) (cleaned rnd decimals df)))"
  unfolding reduce_results_df_def cleaned_def
  by (simp add: set_reset_index sorting_set [OF assms])

lemma reduce_source:
  assumes "sorting srt" and "s \<in> snd ` set (reduce_results_df srt rnd df decimals)"
  shows "\<exists>r \<in> snd ` set df. all_values r \<and> s = r\<lparr>error := round_cell rnd decimals (error r)\<rparr>"
proof -
  from assms have "s \<in> snd ` set (drop_dups (\<lambda>(i, r). error r) []
      (srt (\<lambda>(i, r). cell_key (time r)) (cleaned rnd decimals df)))"
    by (simp add: reduce_set drop_duplicates_def)
  then have "s \<in> snd ` set (srt (\<lambda>(i, r). cell_key (time r)) (cleaned rnd decimals df))"
    using drop_dups_subset by fast
  then obtain i where "(i, s) \<in> set (cleaned rnd decimals df)"
    by (auto simp: sorting_set [OF assms(1)])
  from cleaned_source [OF this] show ?thesis by force
qed

lemma reduce_filter:
  assumes "\<And>r. all_values r \<Longrightarrow> P r"
  shows "reduce_results_df srt rnd (filter (\<lambda>(i, r). P r) df) decimals =
         reduce_results_df srt rnd df decimals"
proof -
  have "filter (\<lambda>(i, r). all_values r) (filter (\<lambda>(i, r). P r) df) =
        filter (\<lambda>(i, r). all_values r) df"
    using assms by (auto simp: filter_filter intro!: filter_cong)
  then show ?thesis by (simp add: reduce_results_df_def dropna_replace_inf)
qed

text \<open>
  C5. For every sort that \<^verbatim>\<open>sort_values\<close> may be and every rounding function: the
  output of \<^verbatim>\<open>reduce_results_df\<close> is labelled 0, 1, 2, ...; its rounded errors are
  strictly ascending in the order of \<^verbatim>\<open>sort_values\<close> (finite values by size, an
  overflowed \<open>+inf\<close> after them), so no two output rows have the same rounded error, and
  when no rounding overflows the error column is a strictly ascending list of values;
  every output row is one of the cleaned rows (the rows left by the replacement and
  \<^verbatim>\<open>dropna\<close>, with the error rounded); every rounded error of a cleaned row is the
  error of an output row; and an output row has the lowest time among the cleaned rows
  with its rounded error.
\<close>

theorem reduce_results_df_keeps_fastest:
  assumes "sorting srt"
    and "out = reduce_results_df srt rnd df decimals"
    and "cl = cleaned rnd decimals df"
  shows "map fst out = [0 ..< length out] \<and>
         sorted_wrt (<) (map (\<lambda>(i, s). cell_key (error s)) out) \<and>
         ((\<forall>r \<in> snd ` set cl. \<exists>e. error r = Val e) \<longrightarrow>
            (\<exists>es. map (\<lambda>(i, s). error s) out = map Val es \<and> sorted_wrt (<) es)) \<and>
         snd ` set out \<subseteq> snd ` set cl \<and>
         (\<forall>r \<in> snd ` set cl. \<exists>s \<in> snd ` set out. error s = error r) \<and>
         (\<forall>s \<in> snd ` set out. \<forall>r \<in> snd ` set cl. error r = error s \<longrightarrow>
            (\<exists>a b. time s = Val a \<and> time r = Val b \<and> a \<le> b))"
proof -
  define tk where "tk = (\<lambda>(i :: nat, r :: ('a, 'b, 'c) fit_record). cell_key (time r))"
  define ek where "ek = (\<lambda>(i :: nat, r :: ('a, 'b, 'c) fit_record). error r)"
  define ekk where "ekk = (\<lambda>(i :: nat, r :: ('a, 'b, 'c) fit_record). cell_key (error r))"
  define s1 where "s1 = srt tk cl"
  define dd where "dd = drop_duplicates ek s1"
  define s2 where "s2 = srt ekk dd"
  have out: "out = reset_index s2"
    unfolding assms(2,3) reduce_results_df_def cleaned_def s2_def dd_def s1_def tk_def ek_def ekk_def ..
  have set_s1: "set s1 = set cl" unfolding s1_def by (rule sorting_set [OF assms(1)])
  have set_s2: "set s2 = set dd" unfolding s2_def by (rule sorting_set [OF assms(1)])
  have dd_sub: "set dd \<subseteq> set cl"
    unfolding dd_def drop_duplicates_def using drop_dups_subset [of ek "[]" s1] set_s1 by simp
  have set_out: "snd ` set out = snd ` set dd"
    unfolding out by (simp add: set_reset_index set_s2)
  have tvals: "\<exists>a. time r = Val a" if "r \<in> snd ` set cl" for r
    using that cleaned_time unfolding assms(3) by force
  \<comment> \<open>the index\<close>
  have c1: "map fst out = [0 ..< length out]"
    unfolding out by (simp add: reset_index_fst length_reset_index)
  \<comment> \<open>the error column\<close>
  have errs: "map (\<lambda>(i, s). error s) out = map ek s2"
    unfolding out ek_def using reset_index_snd [of s2]
    by (metis (no_types, lifting) case_prod_unfold map_map comp_def map_eq_conv)
  have kk: "map ekk s2 = map cell_key (map ek s2)" by (simp add: ekk_def ek_def case_prod_unfold)
  have "map (\<lambda>(i, s). cell_key (error s)) out = map cell_key (map (\<lambda>(i, s). error s) out)"
    by (simp add: case_prod_unfold)
  then have keys_out: "map (\<lambda>(i, s). cell_key (error s)) out = map ekk s2"
    unfolding errs kk .
  have "distinct (map ek dd)" unfolding dd_def drop_duplicates_def by (rule drop_dups_distinct)
  then have dist: "distinct (map ek s2)" unfolding s2_def by (rule sorting_distinct_map [OF assms(1)])
  have "inj_on cell_key (set (map ek s2))" using cell_key_inj by (rule inj_on_subset) simp
  with dist have "distinct (map cell_key (map ek s2))" by (subst distinct_map) blast
  then have "distinct (map ekk s2)" unfolding kk .
  moreover have srt2: "sorted (map ekk s2)" unfolding s2_def by (rule sorting_sorted [OF assms(1)])
  ultimately have "sorted_wrt (<) (map ekk s2)" by (simp add: strict_sorted_iff)
  then have c2: "sorted_wrt (<) (map (\<lambda>(i, s). cell_key (error s)) out)"
    unfolding keys_out .
  have c2': "(\<forall>r \<in> snd ` set cl. \<exists>e. error r = Val e) \<longrightarrow>
            (\<exists>es. map (\<lambda>(i, s). error s) out = map Val es \<and> sorted_wrt (<) es)"
  proof
    assume vals: "\<forall>r \<in> snd ` set cl. \<exists>e. error r = Val e"
    have "\<forall>c \<in> set (map ek s2). \<exists>x. c = Val x"
    proof
      fix c assume "c \<in> set (map ek s2)"
      then obtain i s where "(i, s) \<in> set s2" "c = error s" by (auto simp: ek_def)
      with set_s2 dd_sub have "s \<in> snd ` set cl" by force
      with vals \<open>c = error s\<close> show "\<exists>x. c = Val x" by blast
    qed
    then obtain es where es: "map ek s2 = map Val es" using all_Val_map by blast
    from dist have d: "distinct es" unfolding es by (simp add: distinct_map)
    from srt2 have "sorted es" unfolding kk es by (rule sorted_cell_key_Val)
    with d have "sorted_wrt (<) es" by (simp add: strict_sorted_iff)
    with errs es show "\<exists>es. map (\<lambda>(i, s). error s) out = map Val es \<and> sorted_wrt (<) es"
      by auto
  qed
  \<comment> \<open>the survivors\<close>
  have c3: "snd ` set out \<subseteq> snd ` set cl" using set_out dd_sub by auto
  have keys: "ek ` set dd = ek ` set cl"
    unfolding dd_def drop_duplicates_def by (simp add: drop_dups_keys set_s1)
  have c4: "\<forall>r \<in> snd ` set cl. \<exists>s \<in> snd ` set out. error s = error r"
  proof
    fix r assume "r \<in> snd ` set cl"
    then obtain j where "(j, r) \<in> set cl" by auto
    then have "ek (j, r) \<in> ek ` set cl" by (rule imageI)
    with keys have "ek (j, r) \<in> ek ` set dd" by simp
    then obtain p where p: "p \<in> set dd" "ek p = ek (j, r)" by auto
    obtain i s where "p = (i, s)" by (cases p)
    with p have "(i, s) \<in> set dd" "error s = error r" by (auto simp: ek_def)
    then show "\<exists>s \<in> snd ` set out. error s = error r" unfolding set_out by force
  qed
  have c5: "\<forall>s \<in> snd ` set out. \<forall>r \<in> snd ` set cl. error r = error s \<longrightarrow>
            (\<exists>a b. time s = Val a \<and> time r = Val b \<and> a \<le> b)"
  proof (intro ballI impI)
    fix s r assume s: "s \<in> snd ` set out" and r: "r \<in> snd ` set cl" and e: "error r = error s"
    from s obtain i where mem: "(i, s) \<in> set (drop_dups ek [] s1)"
      unfolding set_out dd_def drop_duplicates_def by auto
    from r obtain j where jr: "(j, r) \<in> set s1" unfolding set_s1 by auto
    have "sorted (map tk s1)" unfolding s1_def by (rule sorting_sorted [OF assms(1)])
    from drop_dups_first [OF this mem jr] e have le: "cell_key (time s) \<le> cell_key (time r)"
      by (simp add: ek_def tk_def)
    from s c3 obtain a where a: "time s = Val a" using tvals by blast
    from tvals [OF r] obtain b where b: "time r = Val b" by blast
    from le a b have "a \<le> b" by simp
    with a b show "\<exists>a b. time s = Val a \<and> time r = Val b \<and> a \<le> b" by blast
  qed
  from c1 c2 c2' c3 c4 c5 show ?thesis by blast
qed

lemma ex_table_reduced:
  "reduce_results_df sort_key decimal_round ex_table 5 =
     [(0, ex_row 3 (Val 5) (Val (1 / 100))), (1, ex_row 2 (Val 2) (Val (12346 / 100000)))]"
  by code_simp

lemma ex_table_overflow:
  "reduce_results_df sort_key overflow_round ex_table 5 =
     [(0, ex_row 3 (Val 5) (Val (1 / 100))), (1, ex_row 2 (Val 2) PosInf)]"
  by code_simp

theorem reduce_results_df_keeps_fastest_witness:
  "sorting (sort_key :: (nat \<times> (nat, addr, nat) fit_record) sorter) \<and>
   reduce_results_df sort_key decimal_round ex_table 5 =
     [(0, ex_row 3 (Val 5) (Val (1 / 100))), (1, ex_row 2 (Val 2) (Val (12346 / 100000)))] \<and>
   map fst (reduce_results_df sort_key decimal_round ex_table 5) =
     [0 ..< length (reduce_results_df sort_key decimal_round ex_table 5)] \<and>
   sorted_wrt (<)
     (map (\<lambda>(i, s). cell_key (error s)) (reduce_results_df sort_key decimal_round ex_table 5)) \<and>
   snd ` set (reduce_results_df sort_key decimal_round ex_table 5) \<subseteq>
     snd ` set (cleaned decimal_round 5 ex_table) \<and>
   reduce_results_df sort_key overflow_round ex_table 5 =
     [(0, ex_row 3 (Val 5) (Val (1 / 100))), (1, ex_row 2 (Val 2) PosInf)] \<and>
   sorted_wrt (<)
     (map (\<lambda>(i, s). cell_key (error s)) (reduce_results_df sort_key overflow_round ex_table 5)) \<and>
   snd ` set (reduce_results_df sort_key overflow_round ex_table 5) \<subseteq>
     snd ` set (cleaned overflow_round 5 ex_table)"
proof -
  note a = reduce_results_df_keeps_fastest [OF sorting_sort_key refl refl,
      of decimal_round ex_table 5]
  note b = reduce_results_df_keeps_fastest [OF sorting_sort_key refl refl,
      of overflow_round ex_table 5]
  from a have a1: "map fst (reduce_results_df sort_key decimal_round ex_table 5) =
     [0 ..< length (reduce_results_df sort_key decimal_round ex_table 5)]"
    by (rule conjunct1)
  from a have a2: "sorted_wrt (<)
     (map (\<lambda>(i, s). cell_key (error s)) (reduce_results_df sort_key decimal_round ex_table 5))"
    by (rule conjunct2 [THEN conjunct1])
  from a have a3: "snd ` set (reduce_results_df sort_key decimal_round ex_table 5) \<subseteq>
     snd ` set (cleaned decimal_round 5 ex_table)"
    by (rule conjunct2 [THEN conjunct2, THEN conjunct2, THEN conjunct1])
  from b have b2: "sorted_wrt (<)
     (map (\<lambda>(i, s). cell_key (error s)) (reduce_results_df sort_key overflow_round ex_table 5))"
    by (rule conjunct2 [THEN conjunct1])
  from b have b3: "snd ` set (reduce_results_df sort_key overflow_round ex_table 5) \<subseteq>
     snd ` set (cleaned overflow_round 5 ex_table)"
    by (rule conjunct2 [THEN conjunct2, THEN conjunct2, THEN conjunct1])
  show ?thesis
    by (intro conjI sorting_sort_key ex_table_reduced ex_table_overflow a1 a2 a3 b2 b3)
qed

subsection \<open>Dropping the rows with missing and infinite cells\<close>

text \<open>
  C6. Every output row of \<^verbatim>\<open>reduce_results_df\<close> is an input row with its error
  rounded, and that input row has an error that is neither infinite nor missing and a
  model and a prediction that are not missing. A row with an infinite error and the row
  of a failed fit (model, prediction and error missing) leave no trace: the output is
  the same when these rows are removed from the input.
\<close>

theorem reduce_results_df_drops_invalid:
  assumes "sorting srt"
  shows "(\<forall>s \<in> snd ` set (reduce_results_df srt rnd df decimals).
            \<exists>r \<in> snd ` set df. s = r\<lparr>error := round_cell rnd decimals (error r)\<rparr> \<and>
              error r \<noteq> NegInf \<and> error r \<noteq> PosInf \<and> error r \<noteq> NaN \<and>
              model r \<noteq> NaN \<and> model_result r \<noteq> NaN) \<and>
         reduce_results_df srt rnd
           (filter (\<lambda>(i, r). \<not> (error r = NegInf \<or> error r = PosInf \<or>
                                 (model r = NaN \<and> model_result r = NaN \<and> error r = NaN))) df)
           decimals = reduce_results_df srt rnd df decimals"
proof
  show "\<forall>s \<in> snd ` set (reduce_results_df srt rnd df decimals).
            \<exists>r \<in> snd ` set df. s = r\<lparr>error := round_cell rnd decimals (error r)\<rparr> \<and>
              error r \<noteq> NegInf \<and> error r \<noteq> PosInf \<and> error r \<noteq> NaN \<and>
              model r \<noteq> NaN \<and> model_result r \<noteq> NaN"
  proof
    fix s assume "s \<in> snd ` set (reduce_results_df srt rnd df decimals)"
    from reduce_source [OF assms this] obtain r where
      r: "r \<in> snd ` set df" "all_values r" "s = r\<lparr>error := round_cell rnd decimals (error r)\<rparr>"
      by blast
    from r(2) have "error r \<noteq> NegInf \<and> error r \<noteq> PosInf \<and> error r \<noteq> NaN \<and>
              model r \<noteq> NaN \<and> model_result r \<noteq> NaN"
      by (auto simp: all_values_def)
    with r(1,3) show "\<exists>r \<in> snd ` set df. s = r\<lparr>error := round_cell rnd decimals (error r)\<rparr> \<and>
              error r \<noteq> NegInf \<and> error r \<noteq> PosInf \<and> error r \<noteq> NaN \<and>
              model r \<noteq> NaN \<and> model_result r \<noteq> NaN" by blast
  qed
next
  show "reduce_results_df srt rnd
           (filter (\<lambda>(i, r). \<not> (error r = NegInf \<or> error r = PosInf \<or>
                                 (model r = NaN \<and> model_result r = NaN \<and> error r = NaN))) df)
           decimals = reduce_results_df srt rnd df decimals"
    by (rule reduce_filter) (auto simp: all_values_def)
qed

theorem reduce_results_df_drops_invalid_witness:
  "sorting (sort_key :: (nat \<times> (nat, addr, nat) fit_record) sorter) \<and>
   reduce_results_df sort_key decimal_round
     (filter (\<lambda>(i, r). \<not> (error r = NegInf \<or> error r = PosInf \<or>
                            (model r = NaN \<and> model_result r = NaN \<and> error r = NaN))) ex_table)
     5 = reduce_results_df sort_key decimal_round ex_table 5 \<and>
   (4, ex_row 5 (Val 1) NegInf) \<in> set ex_table \<and> (5, ex_failed) \<in> set ex_table \<and>
   map (\<lambda>(i, s). model s) (reduce_results_df sort_key decimal_round ex_table 5) = [Val 3, Val 2]"
proof -
  have "map (\<lambda>(i, s). model s) (reduce_results_df sort_key decimal_round ex_table 5) = [Val 3, Val 2]"
    by (simp add: ex_table_reduced ex_row_def)
  moreover have "(4, ex_row 5 (Val 1) NegInf) \<in> set ex_table" "(5, ex_failed) \<in> set ex_table"
    by (simp_all add: ex_table_def)
  ultimately show ?thesis
    using reduce_results_df_drops_invalid [OF sorting_sort_key, of decimal_round ex_table 5]
      sorting_sort_key
    by blast
qed

text \<open>
  C10. The replacement is made in every column: every output row of
  \<^verbatim>\<open>reduce_results_df\<close> is an input row (with its error rounded) that has no
  infinite cell in any of the seven columns, and the output is the same when the rows
  with an infinite cell are removed from the input. In \<open>ex_table\<close> the row of model 4
  has an infinite time and a finite error, and is dropped.
\<close>

theorem reduce_results_df_drops_inf_any_column:
  assumes "sorting srt"
  shows "(\<forall>s \<in> snd ` set (reduce_results_df srt rnd df decimals).
            \<exists>r \<in> snd ` set df. s = r\<lparr>error := round_cell rnd decimals (error r)\<rparr> \<and> \<not> has_inf r) \<and>
         reduce_results_df srt rnd (filter (\<lambda>(i, r). \<not> has_inf r) df) decimals =
           reduce_results_df srt rnd df decimals"
proof
  show "\<forall>s \<in> snd ` set (reduce_results_df srt rnd df decimals).
            \<exists>r \<in> snd ` set df. s = r\<lparr>error := round_cell rnd decimals (error r)\<rparr> \<and> \<not> has_inf r"
  proof
    fix s assume "s \<in> snd ` set (reduce_results_df srt rnd df decimals)"
    from reduce_source [OF assms this] obtain r where
      r: "r \<in> snd ` set df" "all_values r" "s = r\<lparr>error := round_cell rnd decimals (error r)\<rparr>"
      by blast
    from r(2) have "\<not> has_inf r" by (auto simp: all_values_def has_inf_def)
    with r(1,3) show "\<exists>r \<in> snd ` set df. s = r\<lparr>error := round_cell rnd decimals (error r)\<rparr> \<and> \<not> has_inf r"
      by blast
  qed
next
  show "reduce_results_df srt rnd (filter (\<lambda>(i, r). \<not> has_inf r) df) decimals =
           reduce_results_df srt rnd df decimals"
    by (rule reduce_filter) (auto simp: all_values_def has_inf_def)
qed

theorem reduce_results_df_drops_inf_any_column_witness:
  "sorting (sort_key :: (nat \<times> (nat, addr, nat) fit_record) sorter) \<and>
   reduce_results_df sort_key decimal_round (filter (\<lambda>(i, r). \<not> has_inf r) ex_table) 5 =
     reduce_results_df sort_key decimal_round ex_table 5 \<and>
   (3, ex_row 4 PosInf (Val (1 / 1000))) \<in> set ex_table \<and>
   has_inf (ex_row 4 PosInf (Val (1 / 1000))) \<and>
   Val 4 \<notin> set (map (\<lambda>(i, s). model s) (reduce_results_df sort_key decimal_round ex_table 5))"
proof -
  have "Val 4 \<notin> set (map (\<lambda>(i, s). model s) (reduce_results_df sort_key decimal_round ex_table 5))"
    by (simp add: ex_table_reduced ex_row_def)
  moreover have "(3, ex_row 4 PosInf (Val (1 / 1000))) \<in> set ex_table"
    by (simp add: ex_table_def)
  moreover have "has_inf (ex_row 4 PosInf (Val (1 / 1000)))"
    by (simp add: has_inf_def ex_row_def)
  ultimately show ?thesis
    using reduce_results_df_drops_inf_any_column [OF sorting_sort_key, of decimal_round ex_table 5]
      sorting_sort_key
    by blast
qed

section \<open>Properties of \<^verbatim>\<open>get_ic_params\<close>\<close>

lemma first_row_get_Cons:
  "rows X = (d, r) # rest \<Longrightarrow>
   first_row_get X key = (if key \<in> set (columns X) then Inr (r key) else Inl KeyError)"
  by (simp add: first_row_get_def)

lemma ic_loop_unflagged:
  "\<forall>key \<in> set keys. CHR ''0'' \<notin> set key \<Longrightarrow> ic_loop X keys acc = Inr acc"
  by (induction keys arbitrary: acc) auto

lemma ic_loop_first_row:
  assumes "rows X = (d, r) # rest"
    and "\<forall>key \<in> set keys. CHR ''0'' \<in> set key \<longrightarrow> key \<in> set (columns X)"
  shows "ic_loop X keys acc =
         Inr (\<lambda>k. if k \<in> set keys \<and> CHR ''0'' \<in> set k then Some (r k) else acc k)"
  using assms(2)
proof (induction keys arbitrary: acc)
  case Nil
  then show ?case by simp
next
  case (Cons key keys)
  then have IH: "\<And>acc. ic_loop X keys acc =
         Inr (\<lambda>k. if k \<in> set keys \<and> CHR ''0'' \<in> set k then Some (r k) else acc k)"
    by simp
  show ?case
  proof (cases "CHR ''0'' \<in> set key")
    case True
    with Cons.prems have "key \<in> set (columns X)" by simp
    then have "first_row_get X key = Inr (r key)"
      by (simp add: first_row_get_Cons [OF assms(1)])
    with True show ?thesis by (auto simp: IH fun_eq_iff)
  next
    case False
    then show ?thesis by (auto simp: IH fun_eq_iff)
  qed
qed

text \<open>
  C7. For a window with a first row, and a model every one of whose parameter names
  with a \<open>0\<close> is a column of the window, \<^verbatim>\<open>get_ic_params\<close> returns a mapping whose
  keys are exactly the parameter names with a \<open>0\<close> in them, each with the value the
  first row has in the column of that name; and for a model with no such name it
  returns the empty mapping.
\<close>

theorem get_ic_params_first_row:
  "(rows X_train = (d, r) # rest \<and>
    (\<forall>key \<in> set (map fst (model_objs w mdl)).
        CHR ''0'' \<in> set key \<longrightarrow> key \<in> set (columns X_train)) \<longrightarrow>
    (\<exists>ic. get_ic_params w mdl X_train = Inr ic \<and>
       dom ic = {key \<in> set (map fst (model_objs w mdl)). CHR ''0'' \<in> set key} \<and>
       (\<forall>key \<in> dom ic. ic key = Some (r key)))) \<and>
   ((\<forall>key \<in> set (map fst (model_objs w mdl)). CHR ''0'' \<notin> set key) \<longrightarrow>
    get_ic_params w mdl X_train = Inr Map.empty)"
proof (intro conjI impI)
  assume a: "rows X_train = (d, r) # rest \<and>
    (\<forall>key \<in> set (map fst (model_objs w mdl)).
        CHR ''0'' \<in> set key \<longrightarrow> key \<in> set (columns X_train))"
  let ?ic = "\<lambda>k. if k \<in> set (map fst (model_objs w mdl)) \<and> CHR ''0'' \<in> set k
                 then Some (r k) else None"
  from a have "get_ic_params w mdl X_train = Inr ?ic"
    unfolding get_ic_params_def using ic_loop_first_row [of X_train d r rest] by blast
  moreover have "dom ?ic = {key \<in> set (map fst (model_objs w mdl)). CHR ''0'' \<in> set key}"
    by (auto simp: dom_def)
  moreover have "\<forall>key \<in> dom ?ic. ?ic key = Some (r key)"
    by (auto simp: dom_def)
  ultimately show "\<exists>ic. get_ic_params w mdl X_train = Inr ic \<and>
       dom ic = {key \<in> set (map fst (model_objs w mdl)). CHR ''0'' \<in> set key} \<and>
       (\<forall>key \<in> dom ic. ic key = Some (r key))"
    by blast
next
  assume "\<forall>key \<in> set (map fst (model_objs w mdl)). CHR ''0'' \<notin> set key"
  then show "get_ic_params w mdl X_train = Inr Map.empty"
    unfolding get_ic_params_def by (rule ic_loop_unflagged)
qed

lemma ex_X_first_row:
  "rows ex_X = (10, (\<lambda>c. 0 :: rat)(''A0'' := 25 / 2, ''Ph'' := 1)) #
     [(11, (\<lambda>c. 0)(''A0'' := 13, ''Ph'' := 2)), (12, (\<lambda>c. 0)(''A0'' := 14, ''Ph'' := 3))]"
  by (simp add: ex_X_def)

lemma ex_world_names: "map fst (model_objs ex_world 0) = [''A0'', ''B'']"
  by (simp add: ex_world_def)

lemma ex_flagged_columns:
  "\<forall>key \<in> set (map fst (model_objs ex_world 0)).
     CHR ''0'' \<in> set key \<longrightarrow> key \<in> set (columns ex_X)"
  unfolding ex_world_names by (simp add: ex_X_def)

lemma ex_flagged: "{key \<in> set [''A0'', ''B'']. CHR ''0'' \<in> set key} = {''A0''}"
  by auto

theorem get_ic_params_first_row_witness:
  "\<exists>ic. get_ic_params ex_world 0 ex_X = Inr ic \<and> dom ic = {''A0''} \<and> ic ''A0'' = Some (25 / 2)"
proof -
  let ?r = "(\<lambda>c. 0 :: rat)(''A0'' := 25 / 2, ''Ph'' := 1)"
  have "\<exists>ic. get_ic_params ex_world 0 ex_X = Inr ic \<and>
       dom ic = {key \<in> set (map fst (model_objs ex_world 0)). CHR ''0'' \<in> set key} \<and>
       (\<forall>key \<in> dom ic. ic key = Some (?r key))"
    by (rule get_ic_params_first_row [THEN conjunct1, rule_format,
          OF conjI [OF ex_X_first_row ex_flagged_columns]])
  then obtain ic where ic: "get_ic_params ex_world 0 ex_X = Inr ic"
    "dom ic = {key \<in> set (map fst (model_objs ex_world 0)). CHR ''0'' \<in> set key}"
    "\<forall>key \<in> dom ic. ic key = Some (?r key)"
    by (elim exE conjE)
  from ic(2) have d: "dom ic = {''A0''}" unfolding ex_world_names ex_flagged .
  have "''A0'' \<in> dom ic" unfolding d by (rule insertI1)
  with ic(3) have "ic ''A0'' = Some (?r ''A0'')" by (rule bspec)
  then have "ic ''A0'' = Some (25 / 2)" by simp
  with ic(1) d show ?thesis by (intro exI conjI)
qed

text \<open>
  The two arguments that are evaluated inside the \<^verbatim>\<open>try\<close>: the conversion of the
  window always returns, and \<^verbatim>\<open>get_ic_params\<close> raises nothing but the
  \<^verbatim>\<open>IndexError\<close> of an empty window and the \<^verbatim>\<open>KeyError\<close> of a missing column.
\<close>

lemma to_dict_returns: "\<exists>xd. to_dict X = Inr xd"
  by (simp add: to_dict_def)

lemma first_row_get_raises: "first_row_get X key = Inl e \<Longrightarrow> e = IndexError \<or> e = KeyError"
  by (auto simp: first_row_get_def split: list.splits if_splits)

lemma ic_loop_raises: "ic_loop X keys acc = Inl e \<Longrightarrow> e = IndexError \<or> e = KeyError"
proof (induction keys arbitrary: acc)
  case Nil
  then show ?case by simp
next
  case (Cons key keys)
  show ?case
  proof (cases "CHR ''0'' \<in> set key")
    case False
    with Cons show ?thesis by simp
  next
    case True
    show ?thesis
    proof (cases "first_row_get X key")
      case (Inl e')
      with True Cons.prems have "e' = e" by simp
      with Inl first_row_get_raises show ?thesis by blast
    next
      case (Inr v)
      with True Cons.prems have "ic_loop X keys (acc(key \<mapsto> v)) = Inl e" by simp
      then show ?thesis by (rule Cons.IH)
    qed
  qed
qed

lemma get_ic_params_raises:
  "get_ic_params w mdl X = Inl e \<Longrightarrow> e = IndexError \<or> e = KeyError"
  unfolding get_ic_params_def by (rule ic_loop_raises)

section \<open>Properties of \<^verbatim>\<open>train_model\<close>\<close>

lemma copy_params_now: "copy_params w memo ps = (qs, w') \<Longrightarrow> now w' = now w"
proof (induction ps arbitrary: w memo qs w')
  case Nil
  then show ?case by simp
next
  case (Cons np ps)
  obtain name p where np: "np = (name, p)" by (cases np)
  show ?case
  proof (cases "map_of memo p")
    case (Some q)
    obtain qs' w'' where rec: "copy_params w memo ps = (qs', w'')"
      by (cases "copy_params w memo ps")
    with Cons.prems np Some have "w' = w''" by simp
    with Cons.IH [OF rec] show ?thesis by simp
  next
    case None
    let ?w = "w\<lparr>param_objs := (param_objs w)(next_param w := param_objs w p),
                 next_param := Suc (next_param w)\<rparr>"
    obtain qs' w'' where rec: "copy_params ?w ((p, next_param w) # memo) ps = (qs', w'')"
      by (cases "copy_params ?w ((p, next_param w) # memo) ps")
    with Cons.prems np None have "w' = w''" by (simp add: Let_def)
    moreover from Cons.IH [OF rec] have "now w'' = now w" by simp
    ultimately show ?thesis by simp
  qed
qed

lemma deepcopy_now: "deepcopy w a = (b, w') \<Longrightarrow> now w' = now w"
  by (auto simp: deepcopy_def Let_def split: prod.splits dest: copy_params_now)

lemma index_Cons: "rows X \<noteq> [] \<Longrightarrow> index X = hd (index X) # tl (index X)"
  by (simp add: index_def)

lemma result_frame_Inr:
  assumes "rows X \<noteq> []"
  shows "result_frame X m res elapsed method_name (Inr score) =
         Inr [(0, \<lparr>start_date = Val (hd (index X)), end_date = Val (last (index X)), model = m,
                    model_result = res, time = Val elapsed, method = Val method_name,
                    error = score\<rparr>)]"
proof -
  from assms obtain d ds where "index X = d # ds" by (cases "index X") (auto simp: index_def)
  then show ?thesis by (simp add: result_frame_def)
qed

lemma result_frame_Inl: "result_frame X m res elapsed method_name (Inl e) = Inl e \<or>
   result_frame X m res elapsed method_name (Inl e) = Inl IndexError"
  by (simp add: result_frame_def split: list.splits)

lemma result_frame_rows:
  assumes "rows X \<noteq> []" and "result_frame X m res elapsed method_name err = Inr df"
  shows "\<exists>score. err = Inr score \<and>
           df = [(0, \<lparr>start_date = Val (hd (index X)), end_date = Val (last (index X)), model = m,
                    model_result = res, time = Val elapsed, method = Val method_name,
                    error = score\<rparr>)]"
proof (cases err)
  case (Inl e)
  with assms(2) show ?thesis by (simp add: result_frame_def split: list.splits)
next
  case (Inr score)
  with assms show ?thesis by (simp add: result_frame_Inr)
qed

lemma train_model_unfold:
  assumes "deepcopy w0 base_model = (mdl, w1)"
  shows "train_model env base_model X_train y_train error_metric method_name w0 =
         try_fit env X_train y_train error_metric method_name (now w0) w1 mdl
           (to_dict X_train) (get_ic_params w1 mdl X_train)"
  using assms by (simp add: train_model_def Let_def)

lemma try_fit_ValueError:
  assumes "call_fit env w1 mdl X (values_of y_train) method_name ic = (Inl ValueError, w2)"
  shows "try_fit env X_train y_train error_metric method_name start w1 mdl X ic =
         (result_frame X_train NaN NaN (now w2 - start) method_name (Inr NaN), w2)"
  using assms by (simp add: try_fit_def)

lemma try_fit_other:
  assumes "call_fit env w1 mdl X (values_of y_train) method_name ic = (Inl e, w2)"
    and "e \<noteq> ValueError"
  shows "try_fit env X_train y_train error_metric method_name start w1 mdl X ic = (Inl e, w2)"
  using assms by (simp add: try_fit_def)

lemma try_fit_fitted:
  assumes "call_fit env w1 mdl X (values_of y_train) method_name ic = (Inr fitted, w2)"
  shows "try_fit env X_train y_train error_metric method_name start w1 mdl X ic =
         (case predict env w2 fitted X_train of
             (Inl e, w3) \<Rightarrow> (Inl e, w3)
           | (Inr prediction, w3) \<Rightarrow>
               (result_frame X_train (Val fitted) (Val prediction) (now w3 - start)
                  method_name (error_metric (values_of y_train) (Z env prediction)), w3))"
  using assms by (simp add: try_fit_def)

lemma try_fit_rows:
  assumes "rows X_train \<noteq> []"
    and "try_fit env X_train y_train error_metric method_name start w1 mdl X ic = (Inr df, w')"
  shows "\<exists>row. df = [(0, row)] \<and> start_date row = Val (hd (index X_train)) \<and>
           end_date row = Val (last (index X_train)) \<and> method row = Val method_name"
proof -
  obtain r w2 where c: "call_fit env w1 mdl X (values_of y_train) method_name ic = (r, w2)"
    by (cases "call_fit env w1 mdl X (values_of y_train) method_name ic")
  show ?thesis
  proof (cases r)
    case (Inl e)
    with c assms(2) have "e = ValueError"
      by (auto simp: try_fit_def split: if_splits)
    with c Inl assms(2) have "result_frame X_train NaN NaN (now w2 - start) method_name (Inr NaN) = Inr df"
      by (auto simp: try_fit_def)
    from result_frame_rows [OF assms(1) this] show ?thesis by auto
  next
    case (Inr fitted)
    obtain pr w3 where p: "predict env w2 fitted X_train = (pr, w3)"
      by (cases "predict env w2 fitted X_train")
    with c Inr assms(2) obtain prediction where "pr = Inr prediction"
      by (cases pr) (auto simp: try_fit_def)
    with c Inr p assms(2) have "result_frame X_train (Val fitted) (Val prediction) (now w3 - start)
                  method_name (error_metric (values_of y_train) (Z env prediction)) = Inr df"
      by (auto simp: try_fit_def)
    from result_frame_rows [OF assms(1) this] show ?thesis by auto
  qed
qed

lemma ex_X_rows: "rows ex_X \<noteq> []"
  by (simp add: ex_X_def)

lemma ex_X_index: "hd (index ex_X) = 10" "last (index ex_X) = 12"
  by (simp_all add: ex_X_def index_def)

lemma pair_collapse: "p = (fst p, snd p)"
  by simp

lemma ex_env_clock: "clock_monotone ex_env"
  by (simp add: clock_monotone_def ex_env_def)

lemma Inr_projr: "(case s of Inl e \<Rightarrow> False | Inr v \<Rightarrow> True) \<Longrightarrow> s = Inr (projr s)"
  by (cases s) simp_all

text \<open>
  C1. For a window that is not empty: when the call of \<^verbatim>\<open>fit\<close> inside the \<^verbatim>\<open>try\<close>
  raises \<^verbatim>\<open>ValueError\<close>, and when it returns a model whose prediction and score are
  computed, \<^verbatim>\<open>train_model\<close> returns a table of one row, whose start date is the
  first and whose end date is the last value of the window's index; and whenever
  \<^verbatim>\<open>train_model\<close> returns a table at all, it is such a table.
\<close>

theorem train_model_single_row:
  assumes "rows X_train \<noteq> []"
    and "deepcopy w0 base_model = (mdl, w1)"
    and "call_fit env w1 mdl (to_dict X_train) (values_of y_train) method_name
           (get_ic_params w1 mdl X_train) = (r, w2)"
  shows "(r = Inl ValueError \<longrightarrow>
            (\<exists>row. train_model env base_model X_train y_train error_metric method_name w0 =
                     (Inr [(0, row)], w2) \<and>
                   start_date row = Val (hd (index X_train)) \<and>
                   end_date row = Val (last (index X_train)))) \<and>
         (\<forall>fitted p w3 score.
            r = Inr fitted \<and> predict env w2 fitted X_train = (Inr p, w3) \<and>
            error_metric (values_of y_train) (Z env p) = Inr score \<longrightarrow>
            (\<exists>row. train_model env base_model X_train y_train error_metric method_name w0 =
                     (Inr [(0, row)], w3) \<and>
                   start_date row = Val (hd (index X_train)) \<and>
                   end_date row = Val (last (index X_train)))) \<and>
         (\<forall>df w'.
            train_model env base_model X_train y_train error_metric method_name w0 = (Inr df, w') \<longrightarrow>
            (\<exists>row. df = [(0, row)] \<and>
                   start_date row = Val (hd (index X_train)) \<and>
                   end_date row = Val (last (index X_train))))"
proof (intro conjI allI impI)
  assume "r = Inl ValueError"
  with assms(3) show "\<exists>row. train_model env base_model X_train y_train error_metric method_name w0 =
                     (Inr [(0, row)], w2) \<and>
                   start_date row = Val (hd (index X_train)) \<and>
                   end_date row = Val (last (index X_train))"
    by (simp add: train_model_unfold [OF assms(2)] try_fit_ValueError result_frame_Inr [OF assms(1)])
next
  fix fitted p w3 score
  assume "r = Inr fitted \<and> predict env w2 fitted X_train = (Inr p, w3) \<and>
            error_metric (values_of y_train) (Z env p) = Inr score"
  with assms(3) show "\<exists>row. train_model env base_model X_train y_train error_metric method_name w0 =
                     (Inr [(0, row)], w3) \<and>
                   start_date row = Val (hd (index X_train)) \<and>
                   end_date row = Val (last (index X_train))"
    by (simp add: train_model_unfold [OF assms(2)] try_fit_fitted result_frame_Inr [OF assms(1)])
next
  fix df w'
  assume "train_model env base_model X_train y_train error_metric method_name w0 = (Inr df, w')"
  then have "try_fit env X_train y_train error_metric method_name (now w0) w1 mdl
           (to_dict X_train) (get_ic_params w1 mdl X_train) = (Inr df, w')"
    by (simp add: train_model_unfold [OF assms(2)])
  from try_fit_rows [OF assms(1) this]
  show "\<exists>row. df = [(0, row)] \<and> start_date row = Val (hd (index X_train)) \<and>
                   end_date row = Val (last (index X_train))"
    by blast
qed

theorem train_model_single_row_witness:
  "rows ex_X \<noteq> [] \<and>
   (\<exists>row. fst (train_model ex_env 0 ex_X ex_y ex_metric ''diverge'' ex_world) = Inr [(0, row)] \<and>
          start_date row = Val 10 \<and> end_date row = Val 12) \<and>
   (\<exists>row. fst (train_model ex_env 0 ex_X ex_y ex_metric ''nelder'' ex_world) = Inr [(0, row)] \<and>
          start_date row = Val 10 \<and> end_date row = Val 12)"
proof -
  let ?mdl = "fst (deepcopy ex_world 0)" and ?w1 = "snd (deepcopy ex_world 0)"
  let ?c = "\<lambda>m. call_fit ex_env ?w1 ?mdl (to_dict ex_X) (values_of ex_y) m
              (get_ic_params ?w1 ?mdl ex_X)"
  have failed: "fst (?c ''diverge'') = Inl ValueError"
    by code_simp
  have "\<exists>row. train_model ex_env 0 ex_X ex_y ex_metric ''diverge'' ex_world =
                (Inr [(0, row)], snd (?c ''diverge'')) \<and>
              start_date row = Val (hd (index ex_X)) \<and> end_date row = Val (last (index ex_X))"
    by (rule train_model_single_row [OF ex_X_rows pair_collapse pair_collapse,
          THEN conjunct1, rule_format, OF failed])
  then have a: "\<exists>row. fst (train_model ex_env 0 ex_X ex_y ex_metric ''diverge'' ex_world) =
                Inr [(0, row)] \<and> start_date row = Val 10 \<and> end_date row = Val 12"
    unfolding ex_X_index by auto
  have "\<exists>df w'. train_model ex_env 0 ex_X ex_y ex_metric ''nelder'' ex_world = (Inr df, w')"
  proof -
    have "fst (train_model ex_env 0 ex_X ex_y ex_metric ''nelder'' ex_world) =
      Inr [(0, \<lparr>start_date = Val 10, end_date = Val 12, model = Val 2,
                 model_result = Val [1, 2, 3], time = Val 3, method = Val ''nelder'',
                 error = Val 2\<rparr>)]"
      by code_simp
    then show ?thesis by (metis prod.collapse)
  qed
  then obtain df w' where
    t: "train_model ex_env 0 ex_X ex_y ex_metric ''nelder'' ex_world = (Inr df, w')"
    by blast
  have "\<exists>row. df = [(0, row)] \<and> start_date row = Val (hd (index ex_X)) \<and>
              end_date row = Val (last (index ex_X))"
    by (rule train_model_single_row [OF ex_X_rows pair_collapse pair_collapse,
          THEN conjunct2, THEN conjunct2, rule_format, OF t])
  with t have b: "\<exists>row. fst (train_model ex_env 0 ex_X ex_y ex_metric ''nelder'' ex_world) =
                Inr [(0, row)] \<and> start_date row = Val 10 \<and> end_date row = Val 12"
    unfolding ex_X_index by auto
  from ex_X_rows a b show ?thesis by blast
qed

text \<open>
  C2. For a window that is not empty and a monotonic clock: when \<^verbatim>\<open>fit\<close> raises
  \<^verbatim>\<open>ValueError\<close>, \<^verbatim>\<open>train_model\<close> returns the one row with the dates of the window,
  the model, the prediction and the error missing, an elapsed time that is not
  negative, and the name of the method. Any other exception of \<^verbatim>\<open>fit\<close>, and every
  exception of \<^verbatim>\<open>predict\<close> and of the error metric, is raised by \<^verbatim>\<open>train_model\<close>.
\<close>

theorem train_model_tolerates_ValueError:
  assumes "rows X_train \<noteq> []"
    and "clock_monotone env"
    and "deepcopy w0 base_model = (mdl, w1)"
    and "to_dict X_train = Inr xd"
    and "get_ic_params w1 mdl X_train = Inr ic"
  shows "(\<forall>e w2. fit env w1 mdl xd (values_of y_train) method_name ic = (Inl e, w2) \<longrightarrow>
            (e = ValueError \<longrightarrow>
               (\<exists>elapsed. 0 \<le> elapsed \<and>
                  train_model env base_model X_train y_train error_metric method_name w0 =
                    (Inr [(0, \<lparr>start_date = Val (hd (index X_train)),
                               end_date = Val (last (index X_train)),
                               model = NaN, model_result = NaN, time = Val elapsed,
                               method = Val method_name, error = NaN\<rparr>)], w2))) \<and>
            (e \<noteq> ValueError \<longrightarrow>
               train_model env base_model X_train y_train error_metric method_name w0 =
                 (Inl e, w2))) \<and>
         (\<forall>fitted w2 e w3.
            fit env w1 mdl xd (values_of y_train) method_name ic = (Inr fitted, w2) \<and>
            predict env w2 fitted X_train = (Inl e, w3) \<longrightarrow>
            train_model env base_model X_train y_train error_metric method_name w0 = (Inl e, w3)) \<and>
         (\<forall>fitted w2 p w3 e.
            fit env w1 mdl xd (values_of y_train) method_name ic = (Inr fitted, w2) \<and>
            predict env w2 fitted X_train = (Inr p, w3) \<and>
            error_metric (values_of y_train) (Z env p) = Inl e \<longrightarrow>
            train_model env base_model X_train y_train error_metric method_name w0 = (Inl e, w3))"
proof -
  have cf: "call_fit env w1 mdl (to_dict X_train) (values_of y_train) method_name
              (get_ic_params w1 mdl X_train) =
            fit env w1 mdl xd (values_of y_train) method_name ic"
    by (simp add: call_fit_def assms(4,5))
  note unfold = train_model_unfold [OF assms(3)]
  have start: "now w1 = now w0" using assms(3) by (rule deepcopy_now)
  show ?thesis
  proof (intro conjI allI impI)
    fix e w2
    assume f: "fit env w1 mdl xd (values_of y_train) method_name ic = (Inl e, w2)" and "e = ValueError"
    then have c: "call_fit env w1 mdl (to_dict X_train) (values_of y_train) method_name
              (get_ic_params w1 mdl X_train) = (Inl ValueError, w2)"
      by (simp add: cf)
    from assms(2) have "now w1 \<le> now (snd (fit env w1 mdl xd (values_of y_train) method_name ic))"
      unfolding clock_monotone_def by blast
    with f start have "0 \<le> now w2 - now w0" by simp
    moreover have "train_model env base_model X_train y_train error_metric method_name w0 =
                    (Inr [(0, \<lparr>start_date = Val (hd (index X_train)),
                               end_date = Val (last (index X_train)),
                               model = NaN, model_result = NaN, time = Val (now w2 - now w0),
                               method = Val method_name, error = NaN\<rparr>)], w2)"
      by (simp add: unfold try_fit_ValueError [OF c] result_frame_Inr [OF assms(1)])
    ultimately show "\<exists>elapsed. 0 \<le> elapsed \<and>
                  train_model env base_model X_train y_train error_metric method_name w0 =
                    (Inr [(0, \<lparr>start_date = Val (hd (index X_train)),
                               end_date = Val (last (index X_train)),
                               model = NaN, model_result = NaN, time = Val elapsed,
                               method = Val method_name, error = NaN\<rparr>)], w2)"
      by blast
  next
    fix e w2
    assume "fit env w1 mdl xd (values_of y_train) method_name ic = (Inl e, w2)" and "e \<noteq> ValueError"
    then show "train_model env base_model X_train y_train error_metric method_name w0 = (Inl e, w2)"
      by (simp add: unfold try_fit_other cf)
  next
    fix fitted w2 e w3
    assume "fit env w1 mdl xd (values_of y_train) method_name ic = (Inr fitted, w2) \<and>
            predict env w2 fitted X_train = (Inl e, w3)"
    then show "train_model env base_model X_train y_train error_metric method_name w0 = (Inl e, w3)"
      by (simp add: unfold try_fit_fitted cf)
  next
    fix fitted w2 p w3 e
    assume a: "fit env w1 mdl xd (values_of y_train) method_name ic = (Inr fitted, w2) \<and>
            predict env w2 fitted X_train = (Inr p, w3) \<and>
            error_metric (values_of y_train) (Z env p) = Inl e"
    from assms(1) obtain d ds where "index X_train = d # ds"
      by (cases "index X_train") (auto simp: index_def)
    with a show "train_model env base_model X_train y_train error_metric method_name w0 = (Inl e, w3)"
      by (simp add: unfold try_fit_fitted cf result_frame_def)
  qed
qed

theorem train_model_tolerates_ValueError_witness:
  "rows ex_X \<noteq> [] \<and> clock_monotone ex_env \<and>
   (\<exists>elapsed. 0 \<le> elapsed \<and>
      fst (train_model ex_env 0 ex_X ex_y ex_metric ''diverge'' ex_world) =
        Inr [(0, \<lparr>start_date = Val 10, end_date = Val 12, model = NaN, model_result = NaN,
                   time = Val elapsed, method = Val ''diverge'', error = NaN\<rparr>)]) \<and>
   fst (train_model ex_env 0 ex_X ex_y ex_metric ''crash'' ex_world) = Inl (OtherError 0)"
proof -
  let ?mdl = "fst (deepcopy ex_world 0)" and ?w1 = "snd (deepcopy ex_world 0)"
  let ?xd = "map (\<lambda>c. (c, map (\<lambda>(d, r). r c) (rows ex_X))) (columns ex_X)"
  let ?ic = "projr (get_ic_params ?w1 ?mdl ex_X)"
  let ?w2 = "?w1\<lparr>now := now ?w1 + 1\<rparr>"
  have xd: "to_dict ex_X = Inr ?xd" by (simp add: to_dict_def)
  have "case get_ic_params ?w1 ?mdl ex_X of Inl e \<Rightarrow> False | Inr v \<Rightarrow> True"
    by code_simp
  then have ic: "get_ic_params ?w1 ?mdl ex_X = Inr ?ic" by (rule Inr_projr)
  note th = train_model_tolerates_ValueError [OF ex_X_rows ex_env_clock pair_collapse xd ic,
      where y_train = ex_y and error_metric = ex_metric, THEN conjunct1, rule_format]
  have f1: "fit ex_env ?w1 ?mdl ?xd (values_of ex_y) ''diverge'' ?ic = (Inl ValueError, ?w2)"
    by (simp add: ex_env_def)
  have f2: "fit ex_env ?w1 ?mdl ?xd (values_of ex_y) ''crash'' ?ic = (Inl (OtherError 0), ?w2)"
    by (simp add: ex_env_def)
  have "\<exists>elapsed. 0 \<le> elapsed \<and>
      train_model ex_env 0 ex_X ex_y ex_metric ''diverge'' ex_world =
        (Inr [(0, \<lparr>start_date = Val (hd (index ex_X)), end_date = Val (last (index ex_X)),
                    model = NaN, model_result = NaN,
                    time = Val elapsed, method = Val ''diverge'', error = NaN\<rparr>)], ?w2)"
    by (rule th [OF f1, THEN conjunct1, rule_format, OF refl])
  then have a: "\<exists>elapsed. 0 \<le> elapsed \<and>
      fst (train_model ex_env 0 ex_X ex_y ex_metric ''diverge'' ex_world) =
        Inr [(0, \<lparr>start_date = Val 10, end_date = Val 12, model = NaN, model_result = NaN,
                   time = Val elapsed, method = Val ''diverge'', error = NaN\<rparr>)]"
    unfolding ex_X_index by auto
  have "OtherError 0 \<noteq> ValueError" by simp
  then have "train_model ex_env 0 ex_X ex_y ex_metric ''crash'' ex_world = (Inl (OtherError 0), ?w2)"
    by (rule th [OF f2, THEN conjunct2, rule_format])
  then have b: "fst (train_model ex_env 0 ex_X ex_y ex_metric ''crash'' ex_world) = Inl (OtherError 0)"
    by simp
  from ex_X_rows ex_env_clock a b show ?thesis by blast
qed

section \<open>Properties of \<^verbatim>\<open>train_models\<close>\<close>

























section \<open>The base model is not changed\<close>

lemma copy_params_facts:
  assumes "copy_params w memo ps = (qs, w')"
    and "\<forall>q \<in> snd ` set memo. n0 \<le> q" and "n0 \<le> next_param w"
  shows "model_objs w' = model_objs w \<and> next_model w' = next_model w \<and>
         next_param w \<le> next_param w' \<and>
         (\<forall>q \<in> snd ` set qs. n0 \<le> q) \<and>
         (\<forall>p < next_param w. param_objs w' p = param_objs w p)"
  using assms
proof (induction ps arbitrary: w memo qs w')
  case Nil
  then show ?case by simp
next
  case (Cons np ps)
  obtain name p where np: "np = (name, p)" by (cases np)
  show ?case
  proof (cases "map_of memo p")
    case (Some q)
    obtain qs' w'' where rec: "copy_params w memo ps = (qs', w'')"
      by (cases "copy_params w memo ps")
    with Cons.prems(1) np Some have eq: "qs = (name, q) # qs'" "w' = w''" by simp_all
    from Some have "(p, q) \<in> set memo" by (rule map_of_SomeD)
    then have "q \<in> snd ` set memo" by force
    with Cons.prems(2) have q: "n0 \<le> q" by blast
    from Cons.IH [OF rec Cons.prems(2,3)] have IH: "model_objs w'' = model_objs w"
      "next_model w'' = next_model w" "next_param w \<le> next_param w''"
      "\<forall>q \<in> snd ` set qs'. n0 \<le> q" "\<forall>p < next_param w. param_objs w'' p = param_objs w p"
      by blast+
    have "\<forall>q \<in> snd ` set qs. n0 \<le> q" using IH(4) q eq by auto
    with IH eq show ?thesis by simp
  next
    case None
    let ?w = "w\<lparr>param_objs := (param_objs w)(next_param w := param_objs w p),
                 next_param := Suc (next_param w)\<rparr>"
    let ?memo = "(p, next_param w) # memo"
    obtain qs' w'' where rec: "copy_params ?w ?memo ps = (qs', w'')"
      by (cases "copy_params ?w ?memo ps")
    with Cons.prems(1) np None have eq: "qs = (name, next_param w) # qs'" "w' = w''"
      by (simp_all add: Let_def)
    have m: "\<forall>q \<in> snd ` set ?memo. n0 \<le> q" using Cons.prems(2,3) by auto
    have n: "n0 \<le> next_param ?w" using Cons.prems(3) by simp
    from Cons.IH [OF rec m n] have IH: "model_objs w'' = model_objs ?w"
      "next_model w'' = next_model ?w" "next_param ?w \<le> next_param w''"
      "\<forall>q \<in> snd ` set qs'. n0 \<le> q" "\<forall>p < next_param ?w. param_objs w'' p = param_objs ?w p"
      by blast+
    have "model_objs w' = model_objs w" using IH(1) eq by simp
    moreover have "next_model w' = next_model w" using IH(2) eq by simp
    moreover have "next_param w \<le> next_param w'" using IH(3) eq by simp
    moreover have "\<forall>q \<in> snd ` set qs. n0 \<le> q" using IH(4) eq Cons.prems(3) by auto
    moreover have "\<forall>p < next_param w. param_objs w' p = param_objs w p" using IH(5) eq by simp
    ultimately show ?thesis by blast
  qed
qed

lemma deepcopy_apart:
  assumes "deepcopy w0 base = (mdl, w1)"
    and "base < next_model w0" and "owned w0 base \<subseteq> {..< next_param w0}"
  shows "kept w0 base w1 \<and> apart w0 w1 mdl"
proof -
  obtain qs w' where cp: "copy_params w0 [] (model_objs w0 base) = (qs, w')"
    by (cases "copy_params w0 [] (model_objs w0 base)")
  have "\<forall>q \<in> snd ` set ([] :: (addr \<times> addr) list). next_param w0 \<le> q" by simp
  note f = copy_params_facts [OF cp this order_refl]
  from assms(1) cp have mdl: "mdl = next_model w'"
    and w1: "w1 = w'\<lparr>model_objs := (model_objs w')(next_model w' := qs), next_model := Suc (next_model w')\<rparr>"
    by (auto simp: deepcopy_def Let_def)
  have "kept w0 base w1"
    unfolding kept_def using f assms(2,3) by (auto simp: w1 owned_def)
  moreover have "apart w0 w1 mdl"
    unfolding apart_def using f by (auto simp: w1 mdl owned_def)
  ultimately show ?thesis by simp
qed

lemma confined_kept:
  assumes "confined w a w'" and "kept w0 base w" and "apart w0 w a"
    and "base < next_model w0" and "owned w0 base \<subseteq> {..< next_param w0}"
  shows "kept w0 base w'"
proof -
  from assms(3,4) have ne: "base \<noteq> a" by (auto simp: apart_def)
  from assms(2,4) have lt: "base < next_model w" by (auto simp: kept_def)
  from assms(1) lt ne have m: "model_objs w' base = model_objs w base"
    by (simp add: confined_def)
  have p: "param_objs w' p = param_objs w p" if "p \<in> owned w0 base" for p
  proof -
    from that assms(5) have "p < next_param w0" by auto
    moreover from this assms(3) have "p \<notin> owned w a" by (auto simp: apart_def)
    moreover from \<open>p < next_param w0\<close> assms(2) have "p < next_param w" by (auto simp: kept_def)
    ultimately show ?thesis using assms(1) by (simp add: confined_def)
  qed
  show ?thesis
    unfolding kept_def using assms(1,2) m p by (auto simp: kept_def confined_def)
qed

lemma own_or_new_apart:
  assumes "own_or_new w a w' b" and "kept w0 base w" and "apart w0 w a"
  shows "apart w0 w' b"
  using assms unfolding own_or_new_def kept_def apart_def by (metis le_trans)

lemma kept_refl: "kept w0 base w0"
  by (simp add: kept_def)

lemma kept_params_view: "kept w0 base w \<Longrightarrow> params_view w base = params_view w0 base"
  by (auto simp: kept_def params_view_def owned_def)

lemma call_fit_kept:
  assumes "isolated env" and "kept w0 base w1" and "apart w0 w1 mdl"
    and "base < next_model w0" and "owned w0 base \<subseteq> {..< next_param w0}"
    and "call_fit env w1 mdl xd yv meth ic = (r, w2)"
  shows "kept w0 base w2 \<and> (\<forall>b. r = Inr b \<longrightarrow> apart w0 w2 b)"
proof (cases "\<exists>x i. xd = Inr x \<and> ic = Inr i")
  case False
  then have "call_fit env w1 mdl xd yv meth ic = (r, w2) \<Longrightarrow> w2 = w1 \<and> (\<forall>b. r \<noteq> Inr b)"
    by (cases xd; cases ic) (auto simp: call_fit_def)
  with assms(2,6) show ?thesis by simp
next
  case True
  then obtain x i where "xd = Inr x" "ic = Inr i" by blast
  with assms(6) have f: "fit env w1 mdl x yv meth i = (r, w2)" by (simp add: call_fit_def)
  from assms(1) have "confined w1 mdl (snd (fit env w1 mdl x yv meth i))"
    and "\<forall>b. fst (fit env w1 mdl x yv meth i) = Inr b \<longrightarrow>
             own_or_new w1 mdl (snd (fit env w1 mdl x yv meth i)) b"
    unfolding isolated_def by blast+
  with f have c: "confined w1 mdl w2" and o: "\<forall>b. r = Inr b \<longrightarrow> own_or_new w1 mdl w2 b"
    by simp_all
  from confined_kept [OF c assms(2,3,4,5)] have "kept w0 base w2" .
  moreover have "\<forall>b. r = Inr b \<longrightarrow> apart w0 w2 b"
    using o own_or_new_apart [OF _ assms(2,3)] by blast
  ultimately show ?thesis by simp
qed

lemma predict_kept:
  assumes "isolated env" and "kept w0 base w2" and "apart w0 w2 fitted"
    and "base < next_model w0" and "owned w0 base \<subseteq> {..< next_param w0}"
    and "predict env w2 fitted X = (pr, w3)"
  shows "kept w0 base w3 \<and> apart w0 w3 fitted"
proof -
  from assms(1) have "confined w2 fitted (snd (predict env w2 fitted X))"
    and "own_or_new w2 fitted (snd (predict env w2 fitted X)) fitted"
    unfolding isolated_def by blast+
  with assms(6) have c: "confined w2 fitted w3" and o: "own_or_new w2 fitted w3 fitted"
    by simp_all
  from confined_kept [OF c assms(2,3,4,5)] own_or_new_apart [OF o assms(2,3)]
  show ?thesis by simp
qed

lemma result_frame_model:
  assumes "result_frame X m res elapsed method_name err = Inr df"
  shows "model (snd (hd df)) = m"
  using assms by (auto simp: result_frame_def split: list.splits sum.splits)

lemma try_fit_kept:
  assumes "isolated env" and "kept w0 base w1" and "apart w0 w1 mdl"
    and "base < next_model w0" and "owned w0 base \<subseteq> {..< next_param w0}"
    and "try_fit env X_train y_train error_metric method_name start w1 mdl xd ic = (res, w')"
  shows "kept w0 base w' \<and>
         (\<forall>df fitted. res = Inr df \<and> model (snd (hd df)) = Val fitted \<longrightarrow> apart w0 w' fitted)"
proof -
  obtain r w2 where c: "call_fit env w1 mdl xd (values_of y_train) method_name ic = (r, w2)"
    by (cases "call_fit env w1 mdl xd (values_of y_train) method_name ic")
  from call_fit_kept [OF assms(1-5) c]
  have k2: "kept w0 base w2" and a2: "\<forall>b. r = Inr b \<longrightarrow> apart w0 w2 b" by simp_all
  show ?thesis
  proof (cases r)
    case (Inl e)
    show ?thesis
    proof (cases "e = ValueError")
      case True
      with c Inl assms(6) have w: "w' = w2"
        and res: "res = result_frame X_train NaN NaN (now w2 - start) method_name (Inr NaN)"
        by (auto simp: try_fit_def)
      have "\<forall>df fitted. res = Inr df \<and> model (snd (hd df)) = Val fitted \<longrightarrow> apart w0 w' fitted"
      proof (intro allI impI)
        fix df fitted assume "res = Inr df \<and> model (snd (hd df)) = Val fitted"
        with res result_frame_model [of X_train NaN NaN "now w2 - start" method_name "Inr NaN" df]
        have "(NaN :: addr cell) = Val fitted" by simp
        then show "apart w0 w' fitted" by simp
      qed
      with k2 w show ?thesis by simp
    next
      case False
      with c Inl assms(6) have "w' = w2" "res = Inl e" by (auto simp: try_fit_def)
      with k2 show ?thesis by simp
    qed
  next
    case (Inr fitted)
    obtain pr w3 where p: "predict env w2 fitted X_train = (pr, w3)"
      by (cases "predict env w2 fitted X_train")
    from a2 Inr have "apart w0 w2 fitted" by simp
    from predict_kept [OF assms(1) k2 this assms(4,5) p]
    have k3: "kept w0 base w3" and a3: "apart w0 w3 fitted" by simp_all
    show ?thesis
    proof (cases pr)
      case (Inl e)
      with c Inr p assms(6) have "w' = w3" "res = Inl e" by (auto simp: try_fit_def)
      with k3 show ?thesis by simp
    next
      case pred: (Inr prediction)
      with c Inr p assms(6) have w: "w' = w3"
        and res: "res = result_frame X_train (Val fitted) (Val prediction) (now w3 - start)
                  method_name (error_metric (values_of y_train) (Z env prediction))"
        by (auto simp: try_fit_def)
      have "\<forall>df f. res = Inr df \<and> model (snd (hd df)) = Val f \<longrightarrow> apart w0 w' f"
      proof (intro allI impI)
        fix df f assume "res = Inr df \<and> model (snd (hd df)) = Val f"
        with res result_frame_model [of X_train "Val fitted" "Val prediction" "now w3 - start"
            method_name "error_metric (values_of y_train) (Z env prediction)" df]
        have "f = fitted" by simp
        with a3 w show "apart w0 w' f" by simp
      qed
      with k3 w show ?thesis by simp
    qed
  qed
qed

lemma set_param_value_kept:
  assumes "kept w0 base w" and "apart w0 w a" and "owned w0 base \<subseteq> {..< next_param w0}"
  shows "kept w0 base (set_param_value w a name v)"
proof (cases "map_of (model_objs w a) name")
  case None
  with assms(1) show ?thesis by (simp add: set_param_value_def)
next
  case (Some p)
  then have "p \<in> owned w a" unfolding owned_def by (force dest: map_of_SomeD)
  with assms(2) have "next_param w0 \<le> p" by (simp add: apart_def)
  with assms(3) have "p \<notin> owned w0 base" by auto
  with assms(1) Some show ?thesis by (auto simp: set_param_value_def kept_def)
qed

lemma set_param_object_kept:
  assumes "kept w0 base w" and "apart w0 w a" and "base < next_model w0"
  shows "kept w0 base (set_param_object w a name p)"
proof -
  from assms(2,3) have "a \<noteq> base" by (auto simp: apart_def)
  with assms(1) show ?thesis by (simp add: set_param_object_def kept_def)
qed

lemma ex_env_isolated: "isolated ex_env"
  unfolding isolated_def
  by (simp add: ex_env_def confined_def own_or_new_def owned_def)

lemma ex_world_allocated:
  "0 < next_model ex_world" "snd ` set (model_objs ex_world 0) \<subseteq> {..< next_param ex_world}"
  by (simp_all add: ex_world_def)

text \<open>
  C8. For collaborators that change only the model they are called on, and a base model
  that is an object of the world: when \<^verbatim>\<open>train_model\<close> is done (with a table or with
  an exception), \<^verbatim>\<open>base_model.params\<close> shows what it showed before; and the fitted
  model of the returned row is another object than the base model, so that giving one
  of its parameters a new value, or binding one of its parameter names to another
  object, leaves what \<^verbatim>\<open>base_model.params\<close> shows unchanged.
\<close>

theorem train_model_leaves_base_model:
  assumes "isolated env"
    and "base_model < next_model w0"
    and "snd ` set (model_objs w0 base_model) \<subseteq> {..< next_param w0}"
    and "train_model env base_model X_train y_train error_metric method_name w0 = (res, w')"
  shows "params_view w' base_model = params_view w0 base_model \<and>
         (\<forall>df fitted name v p.
            res = Inr df \<and> model (snd (hd df)) = Val fitted \<longrightarrow>
            fitted \<noteq> base_model \<and>
            params_view (set_param_value w' fitted name v) base_model = params_view w0 base_model \<and>
            params_view (set_param_object w' fitted name p) base_model = params_view w0 base_model)"
proof -
  have own: "owned w0 base_model \<subseteq> {..< next_param w0}" using assms(3) by (simp add: owned_def)
  obtain mdl w1 where dc: "deepcopy w0 base_model = (mdl, w1)" by (cases "deepcopy w0 base_model")
  from deepcopy_apart [OF dc assms(2) own]
  have k1: "kept w0 base_model w1" and a1: "apart w0 w1 mdl" by simp_all
  from assms(4) dc have "try_fit env X_train y_train error_metric method_name (now w0) w1 mdl
           (to_dict X_train) (get_ic_params w1 mdl X_train) = (res, w')"
    by (simp add: train_model_def Let_def)
  from try_fit_kept [OF assms(1) k1 a1 assms(2) own this]
  have k: "kept w0 base_model w'"
    and a: "\<forall>df fitted. res = Inr df \<and> model (snd (hd df)) = Val fitted \<longrightarrow> apart w0 w' fitted"
    by blast+
  have "\<forall>df fitted name v p.
            res = Inr df \<and> model (snd (hd df)) = Val fitted \<longrightarrow>
            fitted \<noteq> base_model \<and>
            params_view (set_param_value w' fitted name v) base_model = params_view w0 base_model \<and>
            params_view (set_param_object w' fitted name p) base_model = params_view w0 base_model"
  proof (intro allI impI)
    fix df fitted name v p
    assume "res = Inr df \<and> model (snd (hd df)) = Val fitted"
    with a have ap: "apart w0 w' fitted" by blast
    with assms(2) have "fitted \<noteq> base_model" by (auto simp: apart_def)
    moreover from set_param_value_kept [OF k ap own]
    have "params_view (set_param_value w' fitted name v) base_model = params_view w0 base_model"
      by (rule kept_params_view)
    moreover from set_param_object_kept [OF k ap assms(2)]
    have "params_view (set_param_object w' fitted name p) base_model = params_view w0 base_model"
      by (rule kept_params_view)
    ultimately show "fitted \<noteq> base_model \<and>
            params_view (set_param_value w' fitted name v) base_model = params_view w0 base_model \<and>
            params_view (set_param_object w' fitted name p) base_model = params_view w0 base_model"
      by simp
  qed
  with kept_params_view [OF k] show ?thesis by simp
qed

theorem train_model_leaves_base_model_witness:
  "isolated ex_env \<and> 0 < next_model ex_world \<and>
   snd ` set (model_objs ex_world 0) \<subseteq> {..< next_param ex_world} \<and>
   model (snd (hd (projr (fst (train_model ex_env 0 ex_X ex_y ex_metric ''nelder'' ex_world))))) =
     Val 2 \<and>
   params_view (snd (train_model ex_env 0 ex_X ex_y ex_metric ''nelder'' ex_world)) 0 =
     [(''A0'', None), (''B'', None)] \<and>
   params_view (snd (train_model ex_env 0 ex_X ex_y ex_metric ''nelder'' ex_world)) 2 =
     [(''A0'', Some (25 / 2)), (''B'', Some (25 / 2))] \<and>
   params_view (set_param_value (snd (train_model ex_env 0 ex_X ex_y ex_metric ''nelder'' ex_world))
                  2 ''A0'' (Some 7)) 2 =
     [(''A0'', Some 7), (''B'', Some (25 / 2))] \<and>
   params_view (set_param_value (snd (train_model ex_env 0 ex_X ex_y ex_metric ''nelder'' ex_world))
                  2 ''A0'' (Some 7)) 0 =
     [(''A0'', None), (''B'', None)]"
proof -
  let ?t = "train_model ex_env 0 ex_X ex_y ex_metric ''nelder'' ex_world"
  have res: "fst ?t = Inr [(0, \<lparr>start_date = Val 10, end_date = Val 12, model = Val 2,
                 model_result = Val [1, 2, 3], time = Val 3, method = Val ''nelder'',
                 error = Val 2\<rparr>)]"
    by code_simp
  then have m: "model (snd (hd (projr (fst ?t)))) = Val 2" by simp
  have v0: "params_view ex_world 0 = [(''A0'', None), (''B'', None)]"
    by (simp add: params_view_def ex_world_def)
  have v2: "params_view (snd ?t) 2 = [(''A0'', Some (25 / 2)), (''B'', Some (25 / 2))]"
    by code_simp
  have v3: "params_view (set_param_value (snd ?t) 2 ''A0'' (Some 7)) 2 =
     [(''A0'', Some 7), (''B'', Some (25 / 2))]"
    by code_simp
  have r: "fst ?t = Inr (projr (fst ?t)) \<and> model (snd (hd (projr (fst ?t)))) = Val 2"
    using res m by simp
  note th = train_model_leaves_base_model [OF ex_env_isolated ex_world_allocated pair_collapse,
      of ex_X ex_y ex_metric "''nelder''"]
  from th have a: "params_view (snd ?t) 0 = params_view ex_world 0" by (rule conjunct1)
  from th [THEN conjunct2, rule_format, OF r, of "''A0''" "Some 7"]
  have b: "params_view (set_param_value (snd ?t) 2 ''A0'' (Some 7)) 0 = params_view ex_world 0"
    by simp
  from ex_env_isolated ex_world_allocated m a b v2 v3 show ?thesis unfolding v0 by blast
qed

end
